theory Spec2Isabelle
  imports Main "HOL-Library.Sublist"
begin

section \<open>Python values and JSON encoding\<close>

text \<open>
  Tool results and tool-call arguments are arbitrary Python objects. The model keeps the
  distinctions the source tests: the JSON scalar types, \<open>list\<close>, \<open>tuple\<close>, \<open>dict\<close>, and
  every other object. Of such an object \<open>PObj dv dict cv\<close> it keeps what attribute lookup
  reads: \<open>dv\<close> is what a data descriptor named \<open>value\<close> of its class returns (a property,
  a slot, the value of an enum member), if there is one; \<open>dict\<close> is its \<open>__dict__\<close> (the
  attributes in order), if it has one; \<open>cv\<close> is a plain class attribute named \<open>value\<close>,
  if there is one. Mapping keys are strings or, as a hashable key that JSON cannot
  encode, tuples; keys that \<open>json.dumps\<close> coerces to strings (numbers, booleans, None)
  are left out of the model.
\<close>

datatype pyfloat = Finite int int | NaN | Infinity bool

datatype pykey = KStr string | KTuple "pykey list"

datatype pyval =
    PNone
  | PBool bool
  | PInt int
  | PFloat pyfloat
  | PStr string
  | PList "pyval list"
  | PTuple "pyval list"
  | PDict "(pykey \<times> pyval) list"
  | PObj "pyval option" "(string \<times> pyval) list option" "pyval option"

datatype error =
    TypeError
  | ValueError string
  | ValidationError
  | OperationalError string
  | OtherError string

text \<open>\<open>json.dumps\<close> with its defaults raises TypeError on a key that is not a string
  (or a number, boolean or None), and on any value outside the JSON types; lists and
  tuples both become arrays.\<close>

fun json_key :: "pykey \<Rightarrow> bool" where
  "json_key (KStr k) = True"
| "json_key (KTuple ks) = False"

fun json_encodable :: "pyval \<Rightarrow> bool" where
  "json_encodable PNone = True"
| "json_encodable (PBool b) = True"
| "json_encodable (PInt i) = True"
| "json_encodable (PFloat f) = True"
| "json_encodable (PStr s) = True"
| "json_encodable (PList xs) = (\<forall>x \<in> set xs. json_encodable x)"
| "json_encodable (PTuple xs) = (\<forall>x \<in> set xs. json_encodable x)"
| "json_encodable (PDict kvs) = (\<forall>(k, v) \<in> set kvs. json_key k \<and> json_encodable v)"
| "json_encodable (PObj dv dict cv) = False"

text \<open>\<open>hasattr(obj, 'value')\<close> and \<open>obj.value\<close>, in the order of attribute lookup: a data
  descriptor of the class, then the instance's \<open>__dict__\<close>, then a plain class attribute.
  None of the JSON types, lists, tuples and dicts has the attribute.\<close>

fun getattr_value :: "pyval \<Rightarrow> pyval option" where
  "getattr_value (PObj dv dict cv) =
     (case dv of
        Some v \<Rightarrow> Some v
      | None \<Rightarrow>
          (case (case dict of Some attrs \<Rightarrow> map_of attrs ''value'' | None \<Rightarrow> None) of
             Some v \<Rightarrow> Some v
           | None \<Rightarrow> cv))"
| "getattr_value v = None"

definition startswith_underscore :: "string \<Rightarrow> bool" where
  "startswith_underscore k = (case k of [] \<Rightarrow> False | c # cs \<Rightarrow> c = CHR ''_'')"

text \<open>\<open>{k: v for k, v in obj.__dict__.items() if not k.startswith('_')}\<close>\<close>

definition public_attrs :: "(string \<times> pyval) list \<Rightarrow> pyval" where
  "public_attrs attrs =
     PDict (map (\<lambda>(k, v). (KStr k, v)) (filter (\<lambda>(k, v). \<not> startswith_underscore k) attrs))"

subsection \<open>\<open>LiteLlm._safe_serialize\<close>\<close>

text \<open>The first argument is Python's \<open>str\<close> on objects, which the source only calls.
  The tests of the source run in this order: a \<open>value\<close> attribute, \<open>dict\<close>, \<open>list\<close>, the
  JSON scalars, \<open>__dict__\<close>, and \<open>str\<close> for what is left.\<close>

function safe_serialize :: "(pyval \<Rightarrow> string) \<Rightarrow> pyval \<Rightarrow> pyval" where
  "safe_serialize str (PObj dv dict cv) =
     (case getattr_value (PObj dv dict cv) of
        Some v \<Rightarrow> safe_serialize str v
      | None \<Rightarrow>
          (case dict of
             Some attrs \<Rightarrow> safe_serialize str (public_attrs attrs)
           | None \<Rightarrow> PStr (str (PObj dv dict cv))))"
| "safe_serialize str (PDict kvs) = PDict (map (\<lambda>(k, v). (k, safe_serialize str v)) kvs)"
| "safe_serialize str (PList xs) = PList (map (safe_serialize str) xs)"
| "safe_serialize str PNone = PNone"
| "safe_serialize str (PBool b) = PBool b"
| "safe_serialize str (PInt i) = PInt i"
| "safe_serialize str (PFloat f) = PFloat f"
| "safe_serialize str (PStr s) = PStr s"
| "safe_serialize str (PTuple xs) = PStr (str (PTuple xs))"
  by pat_completeness auto
termination
proof (relation "measure (\<lambda>(str, v). 2 * size v + (case v of PObj dv dict cv \<Rightarrow> 1 | _ \<Rightarrow> 0))",
    goal_cases)
  case 1
  show ?case by simp
next
  case (2 str dv dict cv attrs)
  have "size_list f (filter P xs) \<le> size_list f xs" for f :: "string \<times> pyval \<Rightarrow> nat" and P xs
    by (induction xs) auto
  moreover have "size_prod (\<lambda>x. 0) size \<circ> (\<lambda>(k, v). (KStr k, v))
      = size_prod (\<lambda>x::string. 0) (size :: pyval \<Rightarrow> nat)"
    by (auto simp: fun_eq_iff)
  ultimately have "size (public_attrs attrs) \<le> size (PObj dv (Some attrs) cv)"
    unfolding public_attrs_def
    using le_trans[of "size_list (size_prod (\<lambda>x. 0) size)
               (filter (\<lambda>(k, v). \<not> startswith_underscore k) attrs)"
             "size_list (size_prod (\<lambda>x::string. 0) (size :: pyval \<Rightarrow> nat)) attrs"]
    by simp
  with 2 show ?case by (simp add: public_attrs_def)
next
  case (3 str dv dict cv v)
  have "map_of xs k = Some v \<Longrightarrow> size v < Suc (size_list (size_prod (\<lambda>x. 0) size) xs)"
    for xs :: "(string \<times> pyval) list" and k
    by (induction xs) (auto split: if_splits)
  with 3 have "size v < size (PObj dv dict cv)"
    by (fastforce split: option.splits)
  then show ?case by (auto split: pyval.splits)
next
  case (4 str kvs kv k v)
  have "x \<in> set xs \<Longrightarrow> f x < Suc (size_list f xs)" for x :: "pykey \<times> pyval" and xs f
    by (induction xs) auto
  from this[of kv kvs "size_prod (\<lambda>x. 0) size"] 4 have "size v < size (PDict kvs)" by auto
  then show ?case by (auto split: pyval.splits)
next
  case (5 str xs x)
  have "y \<in> set ys \<Longrightarrow> f y < Suc (size_list f ys)" for y :: pyval and ys f
    by (induction ys) auto
  from this[of x xs size] 5 have "size x < size (PList xs)" by auto
  then show ?case by (auto split: pyval.splits)
qed


subsection \<open>JSON documents\<close>

text \<open>The text that \<open>json.dumps\<close> writes is represented by the document it denotes:
  \<open>to_json\<close> is \<open>json.dumps\<close> (\<open>None\<close> where it raises TypeError) and \<open>of_json\<close> is
  \<open>json.loads\<close>, which returns arrays as lists and objects as dicts with string keys.\<close>

datatype json =
    JNull
  | JBool bool
  | JInt int
  | JFloat pyfloat
  | JStr string
  | JArr "json list"
  | JObj "(string \<times> json) list"

fun those_opt :: "'a option list \<Rightarrow> 'a list option" where
  "those_opt [] = Some []"
| "those_opt (None # xs) = None"
| "those_opt (Some x # xs) = (case those_opt xs of None \<Rightarrow> None | Some ys \<Rightarrow> Some (x # ys))"

fun to_json :: "pyval \<Rightarrow> json option" where
  "to_json PNone = Some JNull"
| "to_json (PBool b) = Some (JBool b)"
| "to_json (PInt i) = Some (JInt i)"
| "to_json (PFloat f) = Some (JFloat f)"
| "to_json (PStr s) = Some (JStr s)"
| "to_json (PList xs) = map_option JArr (those_opt (map to_json xs))"
| "to_json (PTuple xs) = map_option JArr (those_opt (map to_json xs))"
| "to_json (PDict kvs) =
     map_option JObj (those_opt (map (\<lambda>(k, v).
       (case k of KStr s \<Rightarrow> map_option (Pair s) (to_json v) | KTuple ks \<Rightarrow> None)) kvs))"
| "to_json (PObj dv dict cv) = None"

fun of_json :: "json \<Rightarrow> pyval" where
  "of_json JNull = PNone"
| "of_json (JBool b) = PBool b"
| "of_json (JInt i) = PInt i"
| "of_json (JFloat f) = PFloat f"
| "of_json (JStr s) = PStr s"
| "of_json (JArr xs) = PList (map of_json xs)"
| "of_json (JObj kvs) = PDict (map (\<lambda>(k, v). (KStr k, of_json v)) kvs)"

section \<open>Event Codec (\<open>postgres_session_service.py\<close>)\<close>

text \<open>An ADK event: an author and an optional content, which has a role and parts; each
  part is a text, a function call or a function response (\<open>google.genai.types\<close>). The
  library declares the arguments of a call and the response of a function response as
  \<open>Optional[dict[str, Any]]\<close> and validates them when the object is built: a payload is
  None or a dict with string keys, whose values are arbitrary.\<close>

type_synonym payload = "(string \<times> pyval) list option"

definition payload_val :: "payload \<Rightarrow> pyval" where
  "payload_val p =
     (case p of None \<Rightarrow> PNone | Some kvs \<Rightarrow> PDict (map (\<lambda>(k, v). (KStr k, v)) kvs))"

text \<open>The validation that \<open>types.FunctionCall(args=...)\<close> and
  \<open>types.FunctionResponse(response=...)\<close> run on the value they are given; anything but
  None or a dict with string keys raises pydantic's ValidationError.\<close>

fun str_key :: "pykey \<times> pyval \<Rightarrow> (string \<times> pyval) option" where
  "str_key (KStr k, v) = Some (k, v)"
| "str_key (KTuple ks, v) = None"

fun validate_payload :: "pyval \<Rightarrow> error + payload" where
  "validate_payload PNone = Inr None"
| "validate_payload (PDict kvs) =
     (case those_opt (map str_key kvs) of
        None \<Rightarrow> Inl ValidationError
      | Some skvs \<Rightarrow> Inr (Some skvs))"
| "validate_payload v = Inl ValidationError"

datatype function_call =
  FunctionCall (fc_id: "string option") (fc_name: string) (fc_args: payload)

datatype function_response =
  FunctionResponse (fr_id: "string option") (fr_name: string) (fr_response: payload)

datatype part =
    Text string
  | FunctionCallPart function_call
  | FunctionResponsePart function_response

datatype content = Content (role: string) (parts: "part list")

datatype event = Event (author: string) (content: "content option")

text \<open>The dicts that \<open>_serialize_event\<close> builds. A part dict is empty or has exactly one
  of the keys \<open>text\<close>, \<open>function_call\<close> (\<open>name\<close>, \<open>args\<close>, and \<open>id\<close> only when set),
  \<open>function_response\<close> (\<open>id\<close>, \<open>name\<close>, \<open>response\<close>). The payload type is \<open>pyval\<close> for the
  Python dicts and \<open>json\<close> for the stored text.\<close>

datatype 'v part_dict =
    PdEmpty
  | PdText string
  | PdFunctionCall string 'v "string option"
  | PdFunctionResponse "string option" string 'v

datatype 'v content_dict = ContentDict (cd_role: string) (cd_parts: "'v part_dict list")

datatype 'v event_dict = EventDict (ed_author: string) (ed_content: "'v content_dict option")

text \<open>Lines 119-137 of \<open>_serialize_event\<close>: unwrap a \<open>value\<close> attribute once, flatten an
  object that has a \<open>__dict__\<close> to its public attributes once, and fall back to \<open>str\<close>
  when \<open>json.dumps\<close> raises.\<close>

definition normalize_response :: "(pyval \<Rightarrow> string) \<Rightarrow> pyval \<Rightarrow> pyval" where
  "normalize_response str response =
     (let r1 = (case getattr_value response of Some v \<Rightarrow> v | None \<Rightarrow> response);
          r2 = (case r1 of PObj dv (Some attrs) cv \<Rightarrow> public_attrs attrs | _ \<Rightarrow> r1)
      in if json_encodable r2 then r2 else PStr (str r2))"

text \<open>Python truthiness of a string and of an optional string.\<close>

definition truthy :: "string \<Rightarrow> bool" where
  "truthy s = (s \<noteq> [])"

definition truthy_opt :: "string option \<Rightarrow> bool" where
  "truthy_opt s = (case s of None \<Rightarrow> False | Some t \<Rightarrow> truthy t)"

fun serialize_part :: "(pyval \<Rightarrow> string) \<Rightarrow> part \<Rightarrow> pyval part_dict" where
  "serialize_part str (Text t) = (if truthy t then PdText t else PdEmpty)"
| "serialize_part str (FunctionCallPart fc) =
     PdFunctionCall (fc_name fc) (payload_val (fc_args fc))
       (if truthy_opt (fc_id fc) then fc_id fc else None)"
| "serialize_part str (FunctionResponsePart fr) =
     PdFunctionResponse (fr_id fr) (fr_name fr)
       (normalize_response str (payload_val (fr_response fr)))"

definition serialize_event :: "(pyval \<Rightarrow> string) \<Rightarrow> event \<Rightarrow> pyval event_dict" where
  "serialize_event str e =
     EventDict (author e)
       (case content e of
          None \<Rightarrow> None
        | Some c \<Rightarrow> Some (ContentDict (role c) (map (serialize_part str) (parts c))))"

text \<open>\<open>_deserialize_event\<close>: a part dict with none of the three keys adds no part; building
  a function call or a function response raises when the library rejects the payload,
  and the first part that raises ends the loop.\<close>

fun deserialize_part :: "pyval part_dict \<Rightarrow> error + part list" where
  "deserialize_part PdEmpty = Inr []"
| "deserialize_part (PdText t) = Inr [Text t]"
| "deserialize_part (PdFunctionCall name args i) =
     (case validate_payload args of
        Inl err \<Rightarrow> Inl err
      | Inr a \<Rightarrow> Inr [FunctionCallPart (FunctionCall i name a)])"
| "deserialize_part (PdFunctionResponse i name response) =
     (case validate_payload response of
        Inl err \<Rightarrow> Inl err
      | Inr r \<Rightarrow> Inr [FunctionResponsePart (FunctionResponse i name r)])"

fun deserialize_parts :: "pyval part_dict list \<Rightarrow> error + part list" where
  "deserialize_parts [] = Inr []"
| "deserialize_parts (pd # pds) =
     (case deserialize_part pd of
        Inl err \<Rightarrow> Inl err
      | Inr ps \<Rightarrow>
          (case deserialize_parts pds of
             Inl err \<Rightarrow> Inl err
           | Inr rest \<Rightarrow> Inr (ps @ rest)))"

definition deserialize_event :: "pyval event_dict \<Rightarrow> error + event" where
  "deserialize_event d =
     (case ed_content d of
        None \<Rightarrow> Inr (Event (ed_author d) None)
      | Some c \<Rightarrow>
          (case deserialize_parts (cd_parts c) of
             Inl err \<Rightarrow> Inl err
           | Inr ps \<Rightarrow> Inr (Event (ed_author d) (Some (Content (cd_role c) ps)))))"

text \<open>\<open>[self._deserialize_event(e) for e in ...]\<close>: the first event that raises ends the
  comprehension.\<close>

fun deserialize_events :: "pyval event_dict list \<Rightarrow> error + event list" where
  "deserialize_events [] = Inr []"
| "deserialize_events (d # ds) =
     (case deserialize_event d of
        Inl err \<Rightarrow> Inl err
      | Inr e \<Rightarrow>
          (case deserialize_events ds of
             Inl err \<Rightarrow> Inl err
           | Inr es \<Rightarrow> Inr (e # es)))"

text \<open>\<open>json.dumps(events)\<close> and \<open>json.loads(record.events_json)\<close> on lists of event dicts.\<close>

fun dumps_part :: "pyval part_dict \<Rightarrow> json part_dict option" where
  "dumps_part PdEmpty = Some PdEmpty"
| "dumps_part (PdText t) = Some (PdText t)"
| "dumps_part (PdFunctionCall name args i) =
     map_option (\<lambda>j. PdFunctionCall name j i) (to_json args)"
| "dumps_part (PdFunctionResponse i name response) =
     map_option (\<lambda>j. PdFunctionResponse i name j) (to_json response)"

fun dumps_event :: "pyval event_dict \<Rightarrow> json event_dict option" where
  "dumps_event (EventDict a None) = Some (EventDict a None)"
| "dumps_event (EventDict a (Some (ContentDict r ps))) =
     map_option (\<lambda>js. EventDict a (Some (ContentDict r js))) (those_opt (map dumps_part ps))"

definition json_dumps :: "pyval event_dict list \<Rightarrow> error + json event_dict list" where
  "json_dumps ds =
     (case those_opt (map dumps_event ds) of None \<Rightarrow> Inl TypeError | Some js \<Rightarrow> Inr js)"

definition json_loads :: "json event_dict list \<Rightarrow> pyval event_dict list" where
  "json_loads js = map (map_event_dict of_json) js"


section \<open>Session Store (\<open>postgres_session_service.py\<close>)\<close>

text \<open>A row of table \<open>adk_sessions\<close>; the table is a map from the primary key \<open>id\<close> to
  its row. The timestamp columns are wall-clock values that no operation reads; they are
  not modelled.\<close>

record session_record =
  rec_id :: string
  rec_app_name :: string
  rec_user_id :: string
  rec_session_id :: string
  events_json :: "json event_dict list"

type_synonym db = "string \<rightharpoonup> session_record"

text \<open>The ADK \<open>Session\<close> handle held by the caller.\<close>

datatype session =
  Session (app_name: string) (user_id: string) (session_id: string) (events: "event list")

definition make_session_key :: "string \<Rightarrow> string \<Rightarrow> string \<Rightarrow> string" where
  "make_session_key app user sid = app @ '':'' @ user @ '':'' @ sid"

definition load_events :: "session_record \<Rightarrow> error + event list" where
  "load_events record = deserialize_events (json_loads (events_json record))"

text \<open>\<open>create_session\<close> returns its outcome and the table as it leaves it.\<close>

definition create_session ::
  "db \<Rightarrow> string \<Rightarrow> string \<Rightarrow> string \<Rightarrow> (error + session) \<times> db" where
  "create_session d app user sid =
     (let session_key = make_session_key app user sid in
      case d session_key of
        Some existing \<Rightarrow>
          (case load_events existing of
             Inl err \<Rightarrow> (Inl err, d)
           | Inr evs \<Rightarrow> (Inr (Session app user sid evs), d))
      | None \<Rightarrow>
          (Inr (Session app user sid []),
           d(session_key \<mapsto>
               \<lparr>rec_id = session_key, rec_app_name = app, rec_user_id = user,
                rec_session_id = sid, events_json = []\<rparr>)))"

definition get_session_inner ::
  "db \<Rightarrow> string \<Rightarrow> string \<Rightarrow> string \<Rightarrow> error + session option" where
  "get_session_inner d app user sid =
     (case d (make_session_key app user sid) of
        None \<Rightarrow> Inr None
      | Some record \<Rightarrow>
          (case load_events record of
             Inl err \<Rightarrow> Inl err
           | Inr evs \<Rightarrow> Inr (Some (Session app user sid evs))))"

definition delete_session :: "db \<Rightarrow> string \<Rightarrow> string \<Rightarrow> string \<Rightarrow> db" where
  "delete_session d app user sid =
     (let session_key = make_session_key app user sid in
      case d session_key of Some record \<Rightarrow> d(session_key := None) | None \<Rightarrow> d)"

text \<open>\<open>append_event\<close> returns its outcome together with the table and the caller's handle
  as it leaves them, also when it raises.\<close>

definition append_event ::
  "(pyval \<Rightarrow> string) \<Rightarrow> db \<Rightarrow> session \<Rightarrow> event \<Rightarrow> (error + unit) \<times> db \<times> session" where
  "append_event str d s e =
     (let session_key = make_session_key (app_name s) (user_id s) (session_id s) in
      case d session_key of
        None \<Rightarrow> (Inl (ValueError (''Session not found: '' @ session_key)), d, s)
      | Some record \<Rightarrow>
          (let evs = json_loads (events_json record) @ [serialize_event str e] in
           case json_dumps evs of
             Inl err \<Rightarrow> (Inl err, d, s)
           | Inr js \<Rightarrow>
               (Inr (),
                d(session_key \<mapsto> record\<lparr>events_json := js\<rparr>),
                Session (app_name s) (user_id s) (session_id s) (events s @ [e]))))"

subsection \<open>\<open>_retry_on_connection_error\<close>\<close>

text \<open>The wrapped function is given by what its n-th call does. The trace records the
  calls, the sleeps and the disposals of the engine, in order.\<close>

datatype 'a outcome = Returns 'a | Raises error

datatype effect = Attempt nat | Sleep nat | DisposeEngine

text \<open>\<open>str.lower\<close> on the ASCII letters; every other character is unchanged.\<close>

definition lower_char :: "char \<Rightarrow> char" where
  "lower_char c =
     (case map_of (zip ''ABCDEFGHIJKLMNOPQRSTUVWXYZ'' ''abcdefghijklmnopqrstuvwxyz'') c of
        Some l \<Rightarrow> l
      | None \<Rightarrow> c)"

definition lower :: "string \<Rightarrow> string" where
  "lower s = map lower_char s"

fun contains :: "string \<Rightarrow> string \<Rightarrow> bool" where
  "contains sub [] = (sub = [])"
| "contains sub (c # cs) = (prefix sub (c # cs) \<or> contains sub cs)"

definition is_connection_error :: "string \<Rightarrow> bool" where
  "is_connection_error msg =
     (contains ''SSL connection has been closed'' msg \<or> contains ''connection'' (lower msg))"

function retry_from ::
  "(nat \<Rightarrow> 'a outcome) \<Rightarrow> nat \<Rightarrow> nat \<Rightarrow> nat \<Rightarrow> (error + 'a option) \<times> effect list" where
  "retry_from func max_retries delay attempt =
     (if attempt < max_retries then
        (case func attempt of
           Returns v \<Rightarrow> (Inr (Some v), [Attempt attempt])
         | Raises (OperationalError msg) \<Rightarrow>
             (if is_connection_error msg \<and> attempt < max_retries - 1 then
                (let (r, trace) = retry_from func max_retries delay (Suc attempt)
                 in (r, Attempt attempt # Sleep delay # DisposeEngine # trace))
              else (Inl (OperationalError msg), [Attempt attempt]))
         | Raises err \<Rightarrow> (Inl err, [Attempt attempt]))
      else (Inr None, []))"
  by pat_completeness auto
termination
  by (relation "measure (\<lambda>(func, max_retries, delay, attempt). max_retries - attempt)") auto

definition retry_on_connection_error ::
  "(nat \<Rightarrow> 'a outcome) \<Rightarrow> nat \<Rightarrow> nat \<Rightarrow> (error + 'a option) \<times> effect list" where
  "retry_on_connection_error func max_retries delay = retry_from func max_retries delay 0"

text \<open>\<open>get_session\<close>: \<open>faults n\<close> is the exception, if any, that the database raises during
  the n-th call of \<open>_get_session_inner\<close>, which otherwise returns the session or raises
  the decoder's error; the defaults are three attempts, one second.\<close>

definition get_session ::
  "(nat \<Rightarrow> error option) \<Rightarrow> db \<Rightarrow> string \<Rightarrow> string \<Rightarrow> string
     \<Rightarrow> (error + session option) \<times> effect list" where
  "get_session faults d app user sid =
     (let (r, trace) =
        retry_on_connection_error
          (\<lambda>n. case faults n of
                  Some err \<Rightarrow> Raises err
                | None \<Rightarrow>
                    (case get_session_inner d app user sid of
                       Inl err \<Rightarrow> Raises err
                     | Inr found \<Rightarrow> Returns found)) 3 1
      in (case r of
            Inl err \<Rightarrow> Inl err
          | Inr None \<Rightarrow> Inr None
          | Inr (Some found) \<Rightarrow> Inr found,
          trace))"


section \<open>Turn Streaming Coordinator (\<open>server.py\<close>, \<open>database.py\<close>)\<close>

text \<open>The chat-session documents of the secondary store, by session id.\<close>

record chat_message =
  msg_role :: string
  msg_content :: string

record chat_record =
  title :: string
  messages :: "chat_message list"

type_synonym chat_store = "string \<rightharpoonup> chat_record"

definition get_session_messages :: "chat_store \<Rightarrow> string \<Rightarrow> chat_record option" where
  "get_session_messages store sid = store sid"

definition add_message_to_session ::
  "chat_store \<Rightarrow> string \<Rightarrow> string \<Rightarrow> string \<Rightarrow> chat_store" where
  "add_message_to_session store sid r c =
     (case store sid of
        None \<Rightarrow> store
      | Some doc \<Rightarrow>
          store(sid \<mapsto> doc\<lparr>messages := messages doc @ [\<lparr>msg_role = r, msg_content = c\<rparr>]\<rparr>))"

text \<open>The hydration loop of \<open>stream_generator\<close> (lines 86-105).\<close>

definition message_event :: "chat_message \<Rightarrow> event" where
  "message_event m =
     Event (msg_role m) (Some (Content (msg_role m) [Text (msg_content m)]))"

fun hydrate ::
  "(pyval \<Rightarrow> string) \<Rightarrow> db \<Rightarrow> session \<Rightarrow> chat_message list \<Rightarrow> (error + unit) \<times> db \<times> session" where
  "hydrate str d s [] = (Inr (), d, s)"
| "hydrate str d s (m # ms) =
     (if \<not> truthy (msg_content m) then hydrate str d s ms
      else (case append_event str d s (message_event m) of
              (Inl err, d', s') \<Rightarrow> (Inl err, d', s')
            | (Inr u, d', s') \<Rightarrow> hydrate str d' s' ms))"

text \<open>The session set-up of \<open>stream_generator\<close> (lines 70-109), with the exception that
  its \<open>except\<close> clause catches as the \<open>Inl\<close> result.\<close>

definition setup_session ::
  "(pyval \<Rightarrow> string) \<Rightarrow> (nat \<Rightarrow> error option) \<Rightarrow> db \<Rightarrow> chat_store \<Rightarrow> string \<Rightarrow> string
     \<Rightarrow> (error + session) \<times> db" where
  "setup_session str faults d store user sid =
     (case fst (get_session faults d ''agents'' user sid) of
        Inl err \<Rightarrow> (Inl err, d)
      | Inr (Some existing_session) \<Rightarrow> (Inr existing_session, d)
      | Inr None \<Rightarrow>
          (case create_session d ''agents'' user sid of
             (Inl err, d1) \<Rightarrow> (Inl err, d1)
           | (Inr created, d1) \<Rightarrow>
               (case get_session_messages store sid of
                  None \<Rightarrow> (Inr created, d1)
                | Some mongo_session \<Rightarrow>
                    (if messages mongo_session \<noteq> [] then
                       (case hydrate str d1 created (messages mongo_session) of
                          (Inl err, d2, s2) \<Rightarrow> (Inl err, d2)
                        | (Inr u, d2, s2) \<Rightarrow> (Inr s2, d2))
                     else (Inr created, d1)))))"

text \<open>A frame is one server-sent event: \<open>data: {"content": ...}\<close>, \<open>data: {"session_id": ...}\<close>
  or \<open>data: [DONE]\<close>. The agent run is the external runner's output: the events it
  yields and, if it then raises, the text of the exception.\<close>

datatype frame = ContentFrame string | SessionIdFrame string | DoneFrame

datatype run = Run (run_events: "event list") (run_error: "string option")

definition event_frames :: "event \<Rightarrow> frame list" where
  "event_frames e =
     (case content e of
        None \<Rightarrow> []
      | Some c \<Rightarrow>
          concat (map (\<lambda>p. case p of Text t \<Rightarrow> (if truthy t then [ContentFrame t] else [])
                                    | _ \<Rightarrow> []) (parts c)))"

definition stream_generator ::
  "(pyval \<Rightarrow> string) \<Rightarrow> (nat \<Rightarrow> error option) \<Rightarrow> db \<Rightarrow> chat_store \<Rightarrow> run \<Rightarrow> string \<Rightarrow> string
     \<Rightarrow> frame list \<times> db" where
  "stream_generator str faults d store agent_run user sid =
     (case setup_session str faults d store user sid of
        (Inl setup_error, d') \<Rightarrow>
          ([ContentFrame ''Error: Failed to initialize chat session.''], d')
      | (Inr s, d') \<Rightarrow>
          (concat (map event_frames (run_events agent_run))
             @ (case run_error agent_run of
                  Some run_err \<Rightarrow> [ContentFrame (''Error: '' @ run_err)]
                | None \<Rightarrow> [])
             @ [DoneFrame],
           d'))"

text \<open>\<open>chat.stream_with_persistence\<close>: forwards every chunk, accumulates the \<open>content\<close>
  payloads (the payload of \<open>[DONE]\<close> does not parse as an object), saves the assistant
  message and sends the session id.\<close>

fun frame_content :: "frame \<Rightarrow> string" where
  "frame_content (ContentFrame t) = t"
| "frame_content (SessionIdFrame i) = []"
| "frame_content DoneFrame = []"

definition stream_with_persistence ::
  "(pyval \<Rightarrow> string) \<Rightarrow> (nat \<Rightarrow> error option) \<Rightarrow> db \<Rightarrow> chat_store \<Rightarrow> run \<Rightarrow> string \<Rightarrow> string
     \<Rightarrow> frame list \<times> db \<times> chat_store" where
  "stream_with_persistence str faults d store agent_run user sid =
     (let (chunks, d') = stream_generator str faults d store agent_run user sid;
          full_response = concat (map frame_content chunks);
          store' = (if truthy full_response
                    then add_message_to_session store sid ''assistant'' full_response
                    else store)
      in (chunks @ [SessionIdFrame sid], d', store'))"


section \<open>Message Reconciler (\<open>LiteLlm.generate_content_async\<close>)\<close>

text \<open>A backend message is a dict with the keys \<open>role\<close> and \<open>content\<close> and, when present,
  \<open>tool_calls\<close> or \<open>tool_call_id\<close>. The \<open>arguments\<close> of a tool call are the text of
  \<open>json.dumps(args)\<close> when \<open>args\<close> is a dict, and \<open>args\<close> itself otherwise.\<close>

datatype tool_call =
  ToolCall (tc_id: string) (tc_type: string) (tc_name: string) (tc_arguments: pyval)

datatype msg =
  Msg (m_role: string) (m_content: "string option")
      (m_tool_calls: "tool_call list option") (m_tool_call_id: "string option")

definition or_call_unknown :: "string option \<Rightarrow> string" where
  "or_call_unknown i = (case i of Some t \<Rightarrow> (if truthy t then t else ''call_unknown'')
                                 | None \<Rightarrow> ''call_unknown'')"

text \<open>Lines 143-153: the content of a tool message. The argument \<open>dumps\<close> is the text that
  \<open>json.dumps\<close> writes for an encodable value.\<close>

definition tool_content :: "(pyval \<Rightarrow> string) \<Rightarrow> (pyval \<Rightarrow> string) \<Rightarrow> pyval \<Rightarrow> string" where
  "tool_content dumps str response_data =
     (let serialized_data = safe_serialize str response_data in
      case serialized_data of
        PStr t \<Rightarrow> t
      | _ \<Rightarrow> (if json_encodable serialized_data then dumps serialized_data
              else ''Error: Could not serialize response - '' @ take 100 (str response_data)))"

definition call_arguments :: "(pyval \<Rightarrow> string) \<Rightarrow> pyval \<Rightarrow> error + pyval" where
  "call_arguments dumps args =
     (case args of
        PDict kvs \<Rightarrow> (if json_encodable args then Inr (PStr (dumps args)) else Inl TypeError)
      | _ \<Rightarrow> Inr args)"

text \<open>The loop over the parts of one content (lines 127-159); the state is
  \<open>(content_text, tool_calls, tool_responses)\<close>.\<close>

fun convert_part ::
  "(pyval \<Rightarrow> string) \<Rightarrow> (pyval \<Rightarrow> string) \<Rightarrow> string \<times> tool_call list \<times> msg list \<Rightarrow> part
     \<Rightarrow> error + string \<times> tool_call list \<times> msg list" where
  "convert_part dumps str (content_text, tool_calls, tool_responses) (Text t) =
     Inr (if truthy t then (content_text @ t, tool_calls, tool_responses)
          else (content_text, tool_calls, tool_responses))"
| "convert_part dumps str (content_text, tool_calls, tool_responses) (FunctionCallPart fc) =
     (case call_arguments dumps (payload_val (fc_args fc)) of
        Inl err \<Rightarrow> Inl err
      | Inr arguments \<Rightarrow>
          Inr (content_text,
               tool_calls @ [ToolCall (or_call_unknown (fc_id fc)) ''function'' (fc_name fc) arguments],
               tool_responses))"
| "convert_part dumps str (content_text, tool_calls, tool_responses) (FunctionResponsePart fr) =
     Inr (content_text, tool_calls,
          tool_responses @ [Msg ''tool''
                              (Some (tool_content dumps str (payload_val (fr_response fr)))) None
                              (Some (or_call_unknown (fr_id fr)))])"

fun convert_parts ::
  "(pyval \<Rightarrow> string) \<Rightarrow> (pyval \<Rightarrow> string) \<Rightarrow> string \<times> tool_call list \<times> msg list \<Rightarrow> part list
     \<Rightarrow> error + string \<times> tool_call list \<times> msg list" where
  "convert_parts dumps str acc [] = Inr acc"
| "convert_parts dumps str acc (p # ps) =
     (case convert_part dumps str acc p of
        Inl err \<Rightarrow> Inl err
      | Inr acc' \<Rightarrow> convert_parts dumps str acc' ps)"

text \<open>The messages that one content appends (lines 119-175).\<close>

definition convert_content ::
  "(pyval \<Rightarrow> string) \<Rightarrow> (pyval \<Rightarrow> string) \<Rightarrow> content \<Rightarrow> error + msg list" where
  "convert_content dumps str c =
     (let r = (if role c = ''user'' then ''user'' else ''assistant'');
          r = (if role c = ''model'' then ''assistant'' else r)
      in case convert_parts dumps str ([], [], []) (parts c) of
           Inl err \<Rightarrow> Inl err
         | Inr (content_text, tool_calls, tool_responses) \<Rightarrow>
             Inr (if tool_responses \<noteq> [] then tool_responses
                  else if tool_calls \<noteq> [] then
                    [Msg r (if truthy content_text then Some content_text else None)
                         (Some tool_calls) None]
                  else if truthy content_text then [Msg r (Some content_text) None None]
                  else []))"

fun convert_contents ::
  "(pyval \<Rightarrow> string) \<Rightarrow> (pyval \<Rightarrow> string) \<Rightarrow> msg list \<Rightarrow> content list \<Rightarrow> error + msg list" where
  "convert_contents dumps str msgs [] = Inr msgs"
| "convert_contents dumps str msgs (c # cs) =
     (case convert_content dumps str c of
        Inl err \<Rightarrow> Inl err
      | Inr new \<Rightarrow> convert_contents dumps str (msgs @ new) cs)"

definition system_messages :: "string option \<Rightarrow> msg list" where
  "system_messages system_instruction =
     (if truthy_opt system_instruction then [Msg ''system'' system_instruction None None] else [])"

text \<open>The cleanup (lines 195-226).\<close>

fun tool_response_ids :: "msg list \<Rightarrow> string set" where
  "tool_response_ids [] = {}"
| "tool_response_ids (m # ms) =
     (if m_role m = ''tool'' then
        (case m_tool_call_id m of
           Some i \<Rightarrow> (if truthy i then insert i (tool_response_ids ms)
                    else tool_response_ids ms)
         | None \<Rightarrow> tool_response_ids ms)
      else tool_response_ids ms)"

definition clean_message :: "string set \<Rightarrow> msg \<Rightarrow> msg list" where
  "clean_message ids m =
     (if m_role m = ''assistant'' \<and> m_tool_calls m \<noteq> None then
        (let original_tool_calls = (case m_tool_calls m of Some tcs \<Rightarrow> tcs | None \<Rightarrow> []);
             filtered_tool_calls = filter (\<lambda>tc. tc_id tc \<in> ids) original_tool_calls
         in if filtered_tool_calls \<noteq> [] then
              [Msg (m_role m) (m_content m) (Some filtered_tool_calls) (m_tool_call_id m)]
            else if truthy_opt (m_content m) then
              [Msg (m_role m) (m_content m) None (m_tool_call_id m)]
            else [])
      else [m])"

definition cleaned_messages :: "msg list \<Rightarrow> msg list" where
  "cleaned_messages msgs = concat (map (clean_message (tool_response_ids msgs)) msgs)"

text \<open>The \<open>messages\<close> that \<open>generate_content_async\<close> passes to the completion call, or
  the exception it raises while building them.\<close>

definition backend_messages ::
  "(pyval \<Rightarrow> string) \<Rightarrow> (pyval \<Rightarrow> string) \<Rightarrow> string option \<Rightarrow> content list \<Rightarrow> error + msg list" where
  "backend_messages dumps str system_instruction contents =
     (case convert_contents dumps str (system_messages system_instruction) contents of
        Inl err \<Rightarrow> Inl err
      | Inr msgs \<Rightarrow> Inr (cleaned_messages msgs))"


section \<open>Properties\<close>

text \<open>A value built from the JSON scalar types, lists and dicts only.\<close>

fun plain_json :: "pyval \<Rightarrow> bool" where
  "plain_json (PList xs) = (\<forall>x \<in> set xs. plain_json x)"
| "plain_json (PDict kvs) = (\<forall>(k, v) \<in> set kvs. plain_json v)"
| "plain_json (PTuple xs) = False"
| "plain_json (PObj dv dict cv) = False"
| "plain_json v = True"

text \<open>Every mapping inside the value, at any depth, has string keys only.\<close>

fun str_keys :: "pyval \<Rightarrow> bool" where
  "str_keys (PList xs) = (\<forall>x \<in> set xs. str_keys x)"
| "str_keys (PTuple xs) = (\<forall>x \<in> set xs. str_keys x)"
| "str_keys (PDict kvs) = (\<forall>(k, v) \<in> set kvs. json_key k \<and> str_keys v)"
| "str_keys (PObj dv dict cv) =
     ((case dv of None \<Rightarrow> True | Some v \<Rightarrow> str_keys v)
      \<and> (case dict of None \<Rightarrow> True | Some attrs \<Rightarrow> (\<forall>(k, v) \<in> set attrs. str_keys v))
      \<and> (case cv of None \<Rightarrow> True | Some v \<Rightarrow> str_keys v))"
| "str_keys v = True"

text \<open>The normalization rule in the spec's words, as a relation between a value and its
  normal form: a value that exposes a \<open>value\<close> attribute is unwrapped and the rule
  applied to what it holds; otherwise an object with attributes is flattened to the
  mapping of its non-private attributes and the rule applied to that mapping; a mapping
  and a list are kept, with the rule applied to every element; a JSON scalar is kept;
  anything else, a tuple included, becomes its string form.\<close>

inductive normalized :: "(pyval \<Rightarrow> string) \<Rightarrow> pyval \<Rightarrow> pyval \<Rightarrow> bool"
  and normalized_list :: "(pyval \<Rightarrow> string) \<Rightarrow> pyval list \<Rightarrow> pyval list \<Rightarrow> bool"
  and normalized_items ::
    "(pyval \<Rightarrow> string) \<Rightarrow> (pykey \<times> pyval) list \<Rightarrow> (pykey \<times> pyval) list \<Rightarrow> bool"
  for str :: "pyval \<Rightarrow> string" where
  unwrap: "getattr_value obj = Some v \<Longrightarrow> normalized str v w \<Longrightarrow> normalized str obj w"
| flatten: "getattr_value (PObj dv (Some attrs) cv) = None \<Longrightarrow>
            normalized str (public_attrs attrs) w \<Longrightarrow>
            normalized str (PObj dv (Some attrs) cv) w"
| mapping: "normalized_items str kvs kws \<Longrightarrow> normalized str (PDict kvs) (PDict kws)"
| sequence: "normalized_list str xs ws \<Longrightarrow> normalized str (PList xs) (PList ws)"
| none: "normalized str PNone PNone"
| bool: "normalized str (PBool b) (PBool b)"
| int: "normalized str (PInt i) (PInt i)"
| float: "normalized str (PFloat f) (PFloat f)"
| string: "normalized str (PStr s) (PStr s)"
| tuple: "normalized str (PTuple xs) (PStr (str (PTuple xs)))"
| other: "getattr_value (PObj dv None cv) = None \<Longrightarrow>
          normalized str (PObj dv None cv) (PStr (str (PObj dv None cv)))"
| list_nil: "normalized_list str [] []"
| list_cons: "normalized str x w \<Longrightarrow> normalized_list str xs ws \<Longrightarrow>
              normalized_list str (x # xs) (w # ws)"
| items_nil: "normalized_items str [] []"
| items_cons: "normalized str v w \<Longrightarrow> normalized_items str kvs kws \<Longrightarrow>
               normalized_items str ((k, v) # kvs) ((k, w) # kws)"

text \<open>A fixed rendering for \<open>str\<close>, used where an example needs a concrete one.\<close>

definition object_str :: "pyval \<Rightarrow> string" where
  "object_str v = ''<object>''"

text \<open>The parts that the codec's tests tell apart: a text that is not empty, a function call
  whose id is absent or not empty, a function response whose payload \<open>json.dumps\<close> accepts.\<close>

fun codec_exact_part :: "part \<Rightarrow> bool" where
  "codec_exact_part (Text t) = truthy t"
| "codec_exact_part (FunctionCallPart fc) = (fc_id fc \<noteq> Some [])"
| "codec_exact_part (FunctionResponsePart fr) = json_encodable (payload_val (fr_response fr))"

definition codec_exact :: "event \<Rightarrow> bool" where
  "codec_exact e = (case content e of None \<Rightarrow> True | Some c \<Rightarrow> list_all codec_exact_part (parts c))"

text \<open>What a later read makes of an appended event: encoded, written as JSON, parsed and
  decoded; the error where \<open>json.dumps\<close> or the decoder raises.\<close>

definition stored_event :: "(pyval \<Rightarrow> string) \<Rightarrow> event \<Rightarrow> error + event" where
  "stored_event str e =
     (case dumps_event (serialize_event str e) of
        None \<Rightarrow> Inl TypeError
      | Some j \<Rightarrow> deserialize_event (map_event_dict of_json j))"

text \<open>A value that \<open>json.loads (json.dumps v)\<close> returns unchanged.\<close>

definition json_value :: "pyval \<Rightarrow> bool" where
  "json_value v = (plain_json v \<and> str_keys v)"

fun stored_exact_part :: "part \<Rightarrow> bool" where
  "stored_exact_part (Text t) = truthy t"
| "stored_exact_part (FunctionCallPart fc) =
     (fc_id fc \<noteq> Some [] \<and> json_value (payload_val (fc_args fc)))"
| "stored_exact_part (FunctionResponsePart fr) = json_value (payload_val (fr_response fr))"

definition stored_exact :: "event \<Rightarrow> bool" where
  "stored_exact e = (case content e of None \<Rightarrow> True | Some c \<Rightarrow> list_all stored_exact_part (parts c))"

text \<open>An event all of whose function responses \<open>json.dumps\<close> accepts.\<close>

fun json_response_part :: "part \<Rightarrow> bool" where
  "json_response_part (Text t) = True"
| "json_response_part (FunctionCallPart fc) = True"
| "json_response_part (FunctionResponsePart fr) = json_encodable (payload_val (fr_response fr))"

definition json_responses :: "event \<Rightarrow> bool" where
  "json_responses e =
     (case content e of None \<Rightarrow> True | Some c \<Rightarrow> list_all json_response_part (parts c))"

text \<open>A database that never raises.\<close>

definition no_faults :: "nat \<Rightarrow> error option" where
  "no_faults n = None"

text \<open>The errors that \<open>_retry_on_connection_error\<close> treats as connection-level, and the
  trace of a read that ends with its attempt \<open>n\<close>.\<close>

definition retryable :: "error \<Rightarrow> bool" where
  "retryable err = (case err of OperationalError msg \<Rightarrow> is_connection_error msg | _ \<Rightarrow> False)"

definition retry_trace :: "nat \<Rightarrow> effect list" where
  "retry_trace n = concat (map (\<lambda>i. [Attempt i, Sleep 1, DisposeEngine]) [0..<n]) @ [Attempt n]"

text \<open>The stream as C9 describes it: content frames, then the session id frame, then the
  sentinel, and nothing after it.\<close>

fun is_content_frame :: "frame \<Rightarrow> bool" where
  "is_content_frame (ContentFrame t) = True"
| "is_content_frame (SessionIdFrame i) = False"
| "is_content_frame DoneFrame = False"

definition claimed_stream :: "string \<Rightarrow> frame list \<Rightarrow> bool" where
  "claimed_stream sid frames =
     (case rev frames of
        DoneFrame # SessionIdFrame i # cs \<Rightarrow> i = sid \<and> list_all is_content_frame cs
      | _ \<Rightarrow> False)"




text \<open>A fixed rendering for the text of \<open>json.dumps\<close>, used where an example needs one.\<close>

definition example_dumps :: "pyval \<Rightarrow> string" where
  "example_dumps v = ''<json>''"

section \<open>Verified properties\<close>

subsection \<open>Response normalization\<close>

lemma public_attrs_str_keys:
  "str_keys (PObj dv (Some attrs) cv) \<Longrightarrow> str_keys (public_attrs attrs)"
  by (auto simp: public_attrs_def)

lemma getattr_value_str_keys: "str_keys obj \<Longrightarrow> getattr_value obj = Some v \<Longrightarrow> str_keys v"
  by (cases obj) (auto split: option.splits dest: map_of_SomeD)

lemma safe_serialize_plain: "plain_json (safe_serialize str v)"
  by (induction str v rule: safe_serialize.induct) (auto split: option.splits)

lemma safe_serialize_encodable: "str_keys v \<Longrightarrow> json_encodable (safe_serialize str v)"
proof (induction str v rule: safe_serialize.induct)
  case (1 str dv dict cv)
  show ?case
  proof (cases "getattr_value (PObj dv dict cv)")
    case (Some v)
    with 1 getattr_value_str_keys[of "PObj dv dict cv" v] show ?thesis by simp
  next
    case None
    show ?thesis
    proof (cases dict)
      case None
      with \<open>getattr_value (PObj dv dict cv) = None\<close> show ?thesis by simp
    next
      case (Some attrs)
      with 1 None public_attrs_str_keys[of dv attrs cv] show ?thesis by simp
    qed
  qed
qed auto

lemma normalize_response_encodable: "json_encodable (normalize_response str r)"
  by (simp add: normalize_response_def Let_def)

lemma normalize_response_id: "json_encodable r \<Longrightarrow> normalize_response str r = r"
  by (cases r) (simp_all add: normalize_response_def)

lemma normalized_list_map:
  "(\<And>x. x \<in> set xs \<Longrightarrow> normalized str x (f x)) \<Longrightarrow> normalized_list str xs (map f xs)"
  by (induction xs) (auto intro: normalized_normalized_list_normalized_items.intros)

lemma normalized_items_map:
  "(\<And>k v. (k, v) \<in> set kvs \<Longrightarrow> normalized str v (f v))
     \<Longrightarrow> normalized_items str kvs (map (\<lambda>(k, v). (k, f v)) kvs)"
proof (induction kvs)
  case Nil
  show ?case by (simp add: normalized_normalized_list_normalized_items.items_nil)
next
  case (Cons kv kvs)
  obtain k v where kv: "kv = (k, v)" by (cases kv)
  have "normalized str v (f v)" using Cons.prems[of k v] kv by simp
  moreover have "normalized_items str kvs (map (\<lambda>(k, v). (k, f v)) kvs)"
  proof (rule Cons.IH)
    fix k' v' assume "(k', v') \<in> set kvs"
    then show "normalized str v' (f v')" using Cons.prems[of k' v'] by simp
  qed
  ultimately show ?case
    using kv by (simp add: normalized_normalized_list_normalized_items.items_cons)
qed

lemma safe_serialize_normalized: "normalized str v (safe_serialize str v)"
proof (induction str v rule: safe_serialize.induct)
  case (1 str dv dict cv)
  show ?case
  proof (cases "getattr_value (PObj dv dict cv)")
    case (Some v)
    with 1 show ?thesis by (auto intro: normalized_normalized_list_normalized_items.unwrap)
  next
    case None
    show ?thesis
    proof (cases dict)
      case None
      with \<open>getattr_value (PObj dv dict cv) = None\<close> show ?thesis
        by (auto intro: normalized_normalized_list_normalized_items.other)
    next
      case (Some attrs)
      with 1 None show ?thesis by (auto intro: normalized_normalized_list_normalized_items.flatten)
    qed
  qed
next
  case (2 str kvs)
  then show ?case by (auto intro!: normalized_normalized_list_normalized_items.mapping normalized_items_map)
next
  case (3 str xs)
  then show ?case by (auto intro!: normalized_normalized_list_normalized_items.sequence normalized_list_map)
qed (auto intro: normalized_normalized_list_normalized_items.intros)

lemma normalized_unique:
  "normalized str v w \<Longrightarrow> w = safe_serialize str v"
  and normalized_list_unique:
  "normalized_list str xs ws \<Longrightarrow> ws = map (safe_serialize str) xs"
  and normalized_items_unique:
  "normalized_items str kvs kws \<Longrightarrow> kws = map (\<lambda>(k, v). (k, safe_serialize str v)) kvs"
proof (induction rule: normalized_normalized_list_normalized_items.inducts)
  case (unwrap obj v w)
  then show ?case by (cases obj) auto
qed auto

text \<open>The codec's inline normalization does not recurse: a \<open>value\<close> wrapper inside a dict
  makes \<open>json.dumps\<close> raise, and the whole dict is replaced by its \<open>str\<close>.\<close>

lemma normalize_response_not_recursive:
  "normalize_response object_str
      (PDict [(KStr ''a'', PObj None (Some [(''value'', PInt 1)]) None)])
     = PStr ''<object>''"
  by (simp add: normalize_response_def object_str_def)

text \<open>
  C4 (as stated): for every input value \<open>_safe_serialize\<close> returns a value that
  json-encodes without raising, and applies its rule to every element of nested
  mappings and sequences. Both fail. The keys of a mapping are copied unchanged, so the
  result for \<open>{"result": {("a", "b"): 1}}\<close> still has the tuple key, on which
  \<open>json.dumps\<close> raises TypeError; and a tuple is not entered: \<open>(Result(1),)\<close> becomes
  the string form of the tuple, its wrapper not unwrapped.
\<close>

theorem safe_serialize_tuple_key_counterexample:
  "\<not> json_encodable (safe_serialize object_str
        (PDict [(KStr ''result'', PDict [(KTuple [KStr ''a'', KStr ''b''], PInt 1)])]))
   \<and> safe_serialize object_str (PTuple [PObj None (Some [(''value'', PInt 1)]) None])
       = PStr ''<object>''"
  by (simp add: object_str_def)

text \<open>
  C4 (amended): for every input value, \<open>_safe_serialize\<close> returns exactly the normal form
  that the rule gives when applied at every depth of nested mappings and lists (unwrap a
  \<open>value\<close> attribute, else flatten the non-private attributes, else keep a JSON scalar,
  else the string form, which is also what a tuple becomes, whole); so its result is
  built from JSON scalars, lists and dicts only; for every input value whose mappings
  all have string keys the result json-encodes without raising; and the inline
  normalization of \<open>_serialize_event\<close>, which unwraps one level only, returns a value that
  json-encodes without raising for every input value.
\<close>

theorem safe_serialize_normalizes:
  "(normalized str v w \<longleftrightarrow> w = safe_serialize str v)
   \<and> plain_json (safe_serialize str v)
   \<and> (str_keys v \<longrightarrow> json_encodable (safe_serialize str v))
   \<and> json_encodable (normalize_response str v)"
  using safe_serialize_normalized normalized_unique safe_serialize_plain
    safe_serialize_encodable normalize_response_encodable
  by blast

theorem safe_serialize_normalizes_witness:
  "str_keys (PDict [(KStr ''result'',
       PList [PObj None (Some [(''value'', PDict [(KStr ''files'', PList [PStr ''a.txt''])])]) None,
              PObj (Some (PInt 7)) (Some [(''_value_'', PInt 7)]) None,
              PObj None (Some [(''x'', PTuple [PInt 1]), (''_y'', PInt 2)]) None,
              PObj None None None])])
   \<and> safe_serialize object_str (PDict [(KStr ''result'',
       PList [PObj None (Some [(''value'', PDict [(KStr ''files'', PList [PStr ''a.txt''])])]) None,
              PObj (Some (PInt 7)) (Some [(''_value_'', PInt 7)]) None,
              PObj None (Some [(''x'', PTuple [PInt 1]), (''_y'', PInt 2)]) None,
              PObj None None None])])
     = PDict [(KStr ''result'',
         PList [PDict [(KStr ''files'', PList [PStr ''a.txt''])],
                PInt 7,
                PDict [(KStr ''x'', PStr ''<object>'')],
                PStr ''<object>''])]
   \<and> normalized object_str (PDict [(KStr ''result'',
       PList [PObj None (Some [(''value'', PDict [(KStr ''files'', PList [PStr ''a.txt''])])]) None,
              PObj (Some (PInt 7)) (Some [(''_value_'', PInt 7)]) None,
              PObj None (Some [(''x'', PTuple [PInt 1]), (''_y'', PInt 2)]) None,
              PObj None None None])])
       (PDict [(KStr ''result'',
         PList [PDict [(KStr ''files'', PList [PStr ''a.txt''])],
                PInt 7,
                PDict [(KStr ''x'', PStr ''<object>'')],
                PStr ''<object>''])])
   \<and> json_encodable (PDict [(KStr ''result'',
         PList [PDict [(KStr ''files'', PList [PStr ''a.txt''])],
                PInt 7,
                PDict [(KStr ''x'', PStr ''<object>'')],
                PStr ''<object>''])])"
  using safe_serialize_normalizes[where str = object_str
      and v = "PDict [(KStr ''result'',
       PList [PObj None (Some [(''value'', PDict [(KStr ''files'', PList [PStr ''a.txt''])])]) None,
              PObj (Some (PInt 7)) (Some [(''_value_'', PInt 7)]) None,
              PObj None (Some [(''x'', PTuple [PInt 1]), (''_y'', PInt 2)]) None,
              PObj None None None])]"
      and w = "PDict [(KStr ''result'',
         PList [PDict [(KStr ''files'', PList [PStr ''a.txt''])],
                PInt 7,
                PDict [(KStr ''x'', PStr ''<object>'')],
                PStr ''<object>''])]"]
  by (simp add: public_attrs_def startswith_underscore_def object_str_def)

subsection \<open>Event Codec\<close>

lemma those_opt_str_keys:
  "those_opt (map (str_key \<circ> (\<lambda>(k, v). (KStr k, v))) kvs) = Some kvs"
  by (induction kvs) auto

lemma validate_payload_val: "validate_payload (payload_val p) = Inr p"
  by (cases p) (simp_all add: payload_val_def those_opt_str_keys)

lemma deserialize_serialize_part:
  assumes "codec_exact_part p"
  shows "deserialize_part (serialize_part str p) = Inr [p]"
proof (cases p)
  case (Text t)
  with assms show ?thesis by (simp add: truthy_def)
next
  case (FunctionCallPart fc)
  with assms show ?thesis
    by (cases fc) (auto simp: truthy_opt_def truthy_def validate_payload_val split: option.splits)
next
  case (FunctionResponsePart fr)
  with assms show ?thesis
    by (cases fr) (simp add: normalize_response_id validate_payload_val)
qed

lemma deserialize_serialize_parts:
  "list_all codec_exact_part ps \<Longrightarrow> deserialize_parts (map (serialize_part str) ps) = Inr ps"
  by (induction ps) (simp_all add: deserialize_serialize_part)

text \<open>
  C3 (amended): for every event whose text parts are not empty, whose function-call ids
  are absent or not empty, and whose function responses are JSON-serializable,
  \<open>_deserialize_event (_serialize_event event)\<close> returns the event itself: same author,
  same role, same sequence of parts.
\<close>

theorem codec_roundtrip:
  assumes "codec_exact e"
  shows "deserialize_event (serialize_event str e) = Inr e"
proof (cases e)
  case (Event a c)
  show ?thesis
  proof (cases c)
    case None
    with Event show ?thesis by (simp add: deserialize_event_def serialize_event_def)
  next
    case (Some ct)
    obtain r ps where ct: "ct = Content r ps" by (cases ct)
    from assms Event Some ct have "list_all codec_exact_part ps" by (simp add: codec_exact_def)
    then show ?thesis
      using Event Some ct
      by (simp add: deserialize_event_def serialize_event_def deserialize_serialize_parts)
  qed
qed

text \<open>
  C3 (as stated) fails on a part whose text is the empty string: \<open>if part.text\<close> is
  false for it, an empty part dict is written, and the decoder adds no part for it.
\<close>

theorem codec_roundtrip_empty_text_counterexample:
  "deserialize_event (serialize_event object_str (Event ''user'' (Some (Content ''user'' [Text '''']))))
     = Inr (Event ''user'' (Some (Content ''user'' [])))
   \<and> deserialize_event (serialize_event object_str (Event ''user'' (Some (Content ''user'' [Text '''']))))
     \<noteq> Inr (Event ''user'' (Some (Content ''user'' [Text ''''])))"
  by (simp add: deserialize_event_def serialize_event_def truthy_def)

theorem codec_roundtrip_witness:
  "codec_exact (Event ''model'' (Some (Content ''model''
      [Text ''ok'', FunctionCallPart (FunctionCall (Some ''c1'') ''f'' (Some [(''q'', PInt 1)])),
       FunctionCallPart (FunctionCall None ''g'' None),
       FunctionResponsePart (FunctionResponse (Some ''c1'') ''f'' (Some [(''result'', PList [PInt 1])]))])))
   \<and> deserialize_event (serialize_event object_str (Event ''model'' (Some (Content ''model''
      [Text ''ok'', FunctionCallPart (FunctionCall (Some ''c1'') ''f'' (Some [(''q'', PInt 1)])),
       FunctionCallPart (FunctionCall None ''g'' None),
       FunctionResponsePart (FunctionResponse (Some ''c1'') ''f'' (Some [(''result'', PList [PInt 1])]))]))))
    = Inr (Event ''model'' (Some (Content ''model''
      [Text ''ok'', FunctionCallPart (FunctionCall (Some ''c1'') ''f'' (Some [(''q'', PInt 1)])),
       FunctionCallPart (FunctionCall None ''g'' None),
       FunctionResponsePart (FunctionResponse (Some ''c1'') ''f'' (Some [(''result'', PList [PInt 1])]))])))"
  using codec_roundtrip[of "Event ''model'' (Some (Content ''model''
      [Text ''ok'', FunctionCallPart (FunctionCall (Some ''c1'') ''f'' (Some [(''q'', PInt 1)])),
       FunctionCallPart (FunctionCall None ''g'' None),
       FunctionResponsePart (FunctionResponse (Some ''c1'') ''f'' (Some [(''result'', PList [PInt 1])]))]))" object_str]
  by (simp add: codec_exact_def truthy_def payload_val_def)

subsection \<open>JSON documents\<close>

lemma those_opt_append:
  "those_opt (xs @ ys) =
     (case those_opt xs of None \<Rightarrow> None
      | Some a \<Rightarrow> (case those_opt ys of None \<Rightarrow> None | Some b \<Rightarrow> Some (a @ b)))"
  by (induction xs rule: those_opt.induct) (auto split: option.splits)

lemma those_opt_map_Some:
  "(\<And>x. x \<in> set xs \<Longrightarrow> f x = Some (g x)) \<Longrightarrow> those_opt (map f xs) = Some (map g xs)"
  by (induction xs) auto

lemma to_json_of_json: "to_json (of_json j) = Some j"
proof (induction j)
  case (JArr xs)
  then have "those_opt (map (to_json \<circ> of_json) xs) = Some (map id xs)"
    by (intro those_opt_map_Some) simp
  then show ?case by simp
next
  case (JObj kvs)
  have "those_opt (map ((\<lambda>(k, v). case k of KStr s \<Rightarrow> map_option (Pair s) (to_json v) | KTuple ks \<Rightarrow> None)
           \<circ> (\<lambda>(k, v). (KStr k, of_json v))) kvs) = Some (map id kvs)"
  proof (intro those_opt_map_Some)
    fix x assume x: "x \<in> set kvs"
    obtain k v where kv: "x = (k, v)" by (cases x)
    with x JObj[of x v] have "to_json (of_json v) = Some v" by simp
    with kv show "((\<lambda>(k, v). case k of KStr s \<Rightarrow> map_option (Pair s) (to_json v) | KTuple ks \<Rightarrow> None)
           \<circ> (\<lambda>(k, v). (KStr k, of_json v))) x = Some (id x)"
      by simp
  qed
  then show ?case by simp
qed simp_all

lemma those_opt_map_ex:
  "(\<And>x. x \<in> set xs \<Longrightarrow> \<exists>y. f x = Some y \<and> g y = x)
    \<Longrightarrow> \<exists>ys. those_opt (map f xs) = Some ys \<and> map g ys = xs"
proof (induction xs)
  case Nil
  then show ?case by simp
next
  case (Cons a xs)
  then obtain ys where ys: "those_opt (map f xs) = Some ys" "map g ys = xs" by auto
  from Cons.prems[of a] obtain y where "f a = Some y" "g y = a" by auto
  with ys show ?case by simp
qed

lemma to_json_json_value:
  "plain_json v \<Longrightarrow> str_keys v \<Longrightarrow> \<exists>j. to_json v = Some j \<and> of_json j = v"
proof (induction v)
  case (PList xs)
  then have "\<exists>ys. those_opt (map to_json xs) = Some ys \<and> map of_json ys = xs"
    by (intro those_opt_map_ex) simp
  then show ?case by auto
next
  case (PDict kvs)
  have "\<exists>ys. those_opt (map (\<lambda>(k, v). case k of KStr s \<Rightarrow> map_option (Pair s) (to_json v)
                                            | KTuple ks \<Rightarrow> None) kvs) = Some ys
           \<and> map (\<lambda>(k, v). (KStr k, of_json v)) ys = kvs"
  proof (intro those_opt_map_ex)
    fix x assume x: "x \<in> set kvs"
    obtain k v where kv: "x = (k, v)" by (cases x)
    from x kv PDict.prems obtain s where s: "k = KStr s" by (cases k) auto
    from x kv PDict.prems have "plain_json v" "str_keys v" by auto
    with x kv PDict.IH[of x v] obtain j where "to_json v = Some j" "of_json j = v"
      by auto
    with kv s show "\<exists>y. (case x of (k, v) \<Rightarrow> case k of KStr s \<Rightarrow> map_option (Pair s) (to_json v)
                                            | KTuple ks \<Rightarrow> None) = Some y
           \<and> (case y of (k, v) \<Rightarrow> (KStr k, of_json v)) = x"
      by simp
  qed
  then show ?case by auto
qed simp_all

lemma those_opt_map_None_iff: "(those_opt (map f xs) = None) = (\<exists>x \<in> set xs. f x = None)"
proof (induction xs)
  case Nil
  then show ?case by simp
next
  case (Cons a xs)
  then show ?case by (cases "f a") (auto split: option.splits)
qed

lemma to_json_None_iff: "(to_json v = None) = (\<not> json_encodable v)"
proof (induction v)
  case (PDict kvs)
  have "(case k of KStr s \<Rightarrow> map_option (Pair s) (to_json v) | KTuple ks \<Rightarrow> None) = None
          \<longleftrightarrow> \<not> (json_key k \<and> json_encodable v)" if "(k, v) \<in> set kvs" for k v
    using that PDict[of "(k, v)" v] by (cases k) auto
  then show ?case
    by (fastforce simp: those_opt_map_None_iff)
qed (auto simp: those_opt_map_None_iff)

subsection \<open>Session Store\<close>

lemma dumps_part_loads: "dumps_part (map_part_dict of_json p) = Some p"
  by (cases p) (simp_all add: to_json_of_json)

lemma dumps_event_loads: "dumps_event (map_event_dict of_json j) = Some j"
proof (cases j)
  case (EventDict a c)
  show ?thesis
  proof (cases c)
    case None
    with EventDict show ?thesis by simp
  next
    case (Some cd)
    obtain r ps where cd: "cd = ContentDict r ps" by (cases cd)
    have "those_opt (map (dumps_part \<circ> map_part_dict of_json) ps) = Some (map id ps)"
      by (intro those_opt_map_Some) (simp add: dumps_part_loads)
    with EventDict Some cd show ?thesis by simp
  qed
qed

lemma json_dumps_loads_append:
  "json_dumps (json_loads js @ [d]) =
     (case dumps_event d of None \<Rightarrow> Inl TypeError | Some j \<Rightarrow> Inr (js @ [j]))"
proof -
  have "those_opt (map (dumps_event \<circ> map_event_dict of_json) js) = Some (map id js)"
    by (intro those_opt_map_Some) (simp add: dumps_event_loads)
  then show ?thesis
    by (simp add: json_dumps_def json_loads_def those_opt_append split: option.splits)
qed

lemma append_event_found:
  assumes "d (make_session_key (app_name s) (user_id s) (session_id s)) = Some existing"
  shows "append_event str d s e =
     (case dumps_event (serialize_event str e) of
        None \<Rightarrow> (Inl TypeError, d, s)
      | Some j \<Rightarrow>
          (Inr (),
           d(make_session_key (app_name s) (user_id s) (session_id s)
               \<mapsto> existing\<lparr>events_json := events_json existing @ [j]\<rparr>),
           Session (app_name s) (user_id s) (session_id s) (events s @ [e])))"
  using assms
  by (simp add: append_event_def Let_def json_dumps_loads_append split: option.splits)

lemma deserialize_events_append:
  "deserialize_events (ds @ [d]) =
     (case deserialize_events ds of
        Inl err \<Rightarrow> Inl err
      | Inr es \<Rightarrow> (case deserialize_event d of Inl err \<Rightarrow> Inl err | Inr e \<Rightarrow> Inr (es @ [e])))"
  by (induction ds) (auto split: sum.splits)

lemma deserialize_events_length:
  "deserialize_events ds = Inr es \<Longrightarrow> length es = length ds"
  by (induction ds arbitrary: es) (auto split: sum.splits)

lemma load_events_append:
  "load_events (existing\<lparr>events_json := events_json existing @ [j]\<rparr>) =
     (case load_events existing of
        Inl err \<Rightarrow> Inl err
      | Inr es \<Rightarrow>
          (case deserialize_event (map_event_dict of_json j) of
             Inl err \<Rightarrow> Inl err
           | Inr e \<Rightarrow> Inr (es @ [e])))"
  by (simp add: load_events_def json_loads_def deserialize_events_append)

lemma validate_payload_error: "validate_payload v = Inl err \<Longrightarrow> err = ValidationError"
  by (cases v) (auto split: option.splits)

lemma deserialize_part_error: "deserialize_part pd = Inl err \<Longrightarrow> err = ValidationError"
  by (cases pd) (auto split: sum.splits dest: validate_payload_error)

lemma deserialize_parts_error: "deserialize_parts pds = Inl err \<Longrightarrow> err = ValidationError"
  by (induction pds) (auto split: sum.splits dest: deserialize_part_error)

lemma deserialize_event_error: "deserialize_event d = Inl err \<Longrightarrow> err = ValidationError"
  by (auto simp: deserialize_event_def split: option.splits sum.splits
        dest: deserialize_parts_error)

lemma deserialize_events_error: "deserialize_events ds = Inl err \<Longrightarrow> err = ValidationError"
  by (induction ds) (auto split: sum.splits dest: deserialize_event_error)

lemma get_session_inner_error:
  "get_session_inner d app user sid = Inl err \<Longrightarrow> err = ValidationError"
  by (auto simp: get_session_inner_def load_events_def split: option.splits sum.splits
        dest: deserialize_events_error)

lemma get_session_no_fault:
  assumes "faults 0 = None"
  shows "get_session faults d app user sid = (get_session_inner d app user sid, [Attempt 0])"
proof (cases "get_session_inner d app user sid")
  case (Inl err)
  then have "err = ValidationError" by (rule get_session_inner_error)
  with Inl assms show ?thesis
    by (simp add: get_session_def retry_on_connection_error_def)
next
  case (Inr found)
  with assms show ?thesis
    by (simp add: get_session_def retry_on_connection_error_def split: option.splits)
qed

lemma validate_loaded_payload:
  assumes "to_json (payload_val p) = Some j"
  shows "\<exists>q. validate_payload (of_json j) = Inr q"
proof (cases p)
  case None
  with assms show ?thesis by (auto simp: payload_val_def)
next
  case (Some kvs)
  with assms obtain jkvs where "j = JObj jkvs" by (auto simp: payload_val_def)
  then show ?thesis
    using those_opt_str_keys[of "map (\<lambda>(k, v). (k, of_json v)) jkvs"]
    by (simp add: comp_def case_prod_beta)
qed

lemma dumps_serialize_part_exact:
  assumes "stored_exact_part p"
  shows "\<exists>j. dumps_part (serialize_part str p) = Some j
           \<and> deserialize_part (map_part_dict of_json j) = Inr [p]"
proof (cases p)
  case (Text t)
  with assms show ?thesis by (simp add: truthy_def)
next
  case (FunctionCallPart fc)
  obtain i n a where fc: "fc = FunctionCall i n a" by (cases fc)
  with assms FunctionCallPart have "json_value (payload_val a)" "i \<noteq> Some []" by simp_all
  then obtain j where "to_json (payload_val a) = Some j" "of_json j = payload_val a"
    using to_json_json_value[of "payload_val a"] by (auto simp: json_value_def)
  with fc FunctionCallPart \<open>i \<noteq> Some []\<close> show ?thesis
    by (auto simp: truthy_opt_def truthy_def validate_payload_val split: option.splits)
next
  case (FunctionResponsePart fr)
  obtain i n r where fr: "fr = FunctionResponse i n r" by (cases fr)
  with assms FunctionResponsePart have jv: "json_value (payload_val r)" by simp
  then obtain j where j: "to_json (payload_val r) = Some j" "of_json j = payload_val r"
    using to_json_json_value[of "payload_val r"] by (auto simp: json_value_def)
  then have "json_encodable (payload_val r)" using to_json_None_iff[of "payload_val r"] by simp
  with fr FunctionResponsePart j show ?thesis
    by (simp add: normalize_response_id validate_payload_val)
qed

lemma stored_event_exact:
  assumes "stored_exact e"
  shows "stored_event str e = Inr e"
proof (cases e)
  case (Event a c)
  show ?thesis
  proof (cases c)
    case None
    with Event show ?thesis
      by (simp add: stored_event_def serialize_event_def deserialize_event_def)
  next
    case (Some ct)
    obtain r ps where ct: "ct = Content r ps" by (cases ct)
    from assms Event Some ct have "list_all stored_exact_part ps" by (simp add: stored_exact_def)
    then have "\<exists>js. those_opt (map dumps_part (map (serialize_part str) ps)) = Some js
        \<and> deserialize_parts (map (map_part_dict of_json) js) = Inr ps"
    proof (induction ps)
      case Nil
      then show ?case by simp
    next
      case (Cons p ps)
      then obtain js where "those_opt (map dumps_part (map (serialize_part str) ps)) = Some js"
        "deserialize_parts (map (map_part_dict of_json) js) = Inr ps" by auto
      moreover from Cons.prems obtain j where "dumps_part (serialize_part str p) = Some j"
        "deserialize_part (map_part_dict of_json j) = Inr [p]"
        using dumps_serialize_part_exact[of p str] by auto
      ultimately show ?case by simp
    qed
    then show ?thesis
      using Event Some ct
      by (auto simp: stored_event_def serialize_event_def deserialize_event_def)
  qed
qed

lemma dumps_part_decodes:
  assumes "json_response_part p" "dumps_part (serialize_part str p) = Some j"
  shows "\<exists>ps. deserialize_part (map_part_dict of_json j) = Inr ps"
proof (cases p)
  case (Text t)
  with assms show ?thesis by (auto split: if_splits)
next
  case (FunctionCallPart fc)
  with assms obtain ja where "to_json (payload_val (fc_args fc)) = Some ja"
    "j = PdFunctionCall (fc_name fc) ja (if truthy_opt (fc_id fc) then fc_id fc else None)"
    by auto
  then show ?thesis using validate_loaded_payload[of "fc_args fc" ja] by auto
next
  case (FunctionResponsePart fr)
  with assms have "normalize_response str (payload_val (fr_response fr)) = payload_val (fr_response fr)"
    by (simp add: normalize_response_id)
  with assms FunctionResponsePart obtain jr where "to_json (payload_val (fr_response fr)) = Some jr"
    "j = PdFunctionResponse (fr_id fr) (fr_name fr) jr"
    by auto
  then show ?thesis using validate_loaded_payload[of "fr_response fr" jr] by auto
qed

lemma those_opt_Cons_Some:
  "those_opt (x # xs) = Some ys \<Longrightarrow> \<exists>y ys'. x = Some y \<and> those_opt xs = Some ys' \<and> ys = y # ys'"
  by (cases x) (auto split: option.splits)

lemma stored_event_decodes:
  assumes "json_responses e" "dumps_event (serialize_event str e) = Some j"
  shows "\<exists>e'. stored_event str e = Inr e'"
proof (cases e)
  case (Event a c)
  show ?thesis
  proof (cases c)
    case None
    with Event show ?thesis
      by (simp add: stored_event_def serialize_event_def deserialize_event_def)
  next
    case (Some ct)
    obtain r ps where ct: "ct = Content r ps" by (cases ct)
    from assms(1) Event Some ct have all: "list_all json_response_part ps"
      by (simp add: json_responses_def)
    from assms(2) Event Some ct obtain js
      where js: "those_opt (map dumps_part (map (serialize_part str) ps)) = Some js"
      by (auto simp: serialize_event_def)
    from all js have "\<exists>qs. deserialize_parts (map (map_part_dict of_json) js) = Inr qs"
    proof (induction ps arbitrary: js)
      case Nil
      then show ?case by simp
    next
      case (Cons p ps)
      from Cons.prems(2) obtain y ys where y: "dumps_part (serialize_part str p) = Some y"
        "those_opt (map dumps_part (map (serialize_part str) ps)) = Some ys" "js = y # ys"
        using those_opt_Cons_Some[of "dumps_part (serialize_part str p)"
            "map dumps_part (map (serialize_part str) ps)" js]
        by auto
      from Cons.prems(1) y(1) obtain q where "deserialize_part (map_part_dict of_json y) = Inr q"
        using dumps_part_decodes[of p str y] by auto
      moreover from Cons.IH[of ys] Cons.prems(1) y(2)
      obtain qs where "deserialize_parts (map (map_part_dict of_json) ys) = Inr qs" by auto
      ultimately show ?case using y(3) by simp
    qed
    then show ?thesis
      using Event Some ct js
      by (auto simp: stored_event_def serialize_event_def deserialize_event_def)
  qed
qed

text \<open>On every table whose row under the key, if there is one, decodes, creation is
  idempotent: both calls return the same session, the second leaves the table as the
  first left it, and an existing row is returned and not overwritten.\<close>

lemma create_session_idempotent:
  assumes "\<forall>existing. d (make_session_key app user sid) = Some existing \<longrightarrow>
             (\<exists>evs. load_events existing = Inr evs)"
  shows "\<exists>s d1. create_session d app user sid = (Inr s, d1)
           \<and> create_session d1 app user sid = (Inr s, d1)
           \<and> dom d1 = insert (make_session_key app user sid) (dom d)
           \<and> (\<forall>existing. d (make_session_key app user sid) = Some existing \<longrightarrow>
                  d1 = d \<and> load_events existing = Inr (events s))"
proof (cases "d (make_session_key app user sid)")
  case None
  then show ?thesis
    by (auto simp: create_session_def Let_def load_events_def json_loads_def)
next
  case (Some existing)
  with assms obtain evs where "load_events existing = Inr evs" by auto
  with Some show ?thesis
    by (auto simp: create_session_def Let_def)
qed

text \<open>
  C5: creation is idempotent and returns an existing row's state rather than erroring.
  The code breaks this on a row that its own append wrote: for a function response
  whose payload \<open>json.dumps\<close> rejects, \<open>_serialize_event\<close> stores the string form of the
  payload, \<open>append_event\<close> succeeds, and \<open>create_session\<close> on the existing row then raises
  the library's ValidationError while decoding it.
\<close>

theorem create_session_raises_on_stringified_response:
  "fst (append_event object_str
          (snd (create_session Map.empty ''agents'' ''u'' ''s''))
          (Session ''agents'' ''u'' ''s'' [])
          (Event ''user'' (Some (Content ''user''
             [FunctionResponsePart (FunctionResponse (Some ''c1'') ''query_memory''
                (Some [(''result'',
                   PList [PObj None (Some [(''memory'', PStr ''likes tea'')]) None])]))]))))
     = Inr ()
   \<and> fst (create_session
          (fst (snd (append_event object_str
             (snd (create_session Map.empty ''agents'' ''u'' ''s''))
             (Session ''agents'' ''u'' ''s'' [])
             (Event ''user'' (Some (Content ''user''
                [FunctionResponsePart (FunctionResponse (Some ''c1'') ''query_memory''
                   (Some [(''result'',
                      PList [PObj None (Some [(''memory'', PStr ''likes tea'')]) None])]))]))))))
          ''agents'' ''u'' ''s'')
     = Inl ValidationError"
  by (simp add: create_session_def append_event_def make_session_key_def Let_def
        json_loads_def json_dumps_def serialize_event_def deserialize_event_def
        load_events_def normalize_response_def payload_val_def object_str_def)

text \<open>
  C10: append is atomic on failure. For every session handle whose row is absent,
  \<open>append_event\<close> raises (ValueError, session not found) and leaves the table and the
  caller's handle exactly as they were.
\<close>

theorem append_event_missing_record:
  assumes "d (make_session_key (app_name s) (user_id s) (session_id s)) = None"
  shows "append_event str d s e =
     (Inl (ValueError (''Session not found: ''
             @ make_session_key (app_name s) (user_id s) (session_id s))), d, s)"
  using assms by (simp add: append_event_def)

theorem append_event_missing_record_witness:
  "delete_session (snd (create_session Map.empty ''agents'' ''u'' ''s'')) ''agents'' ''u'' ''s''
       (make_session_key ''agents'' ''u'' ''s'') = None
   \<and> append_event object_str
        (delete_session (snd (create_session Map.empty ''agents'' ''u'' ''s'')) ''agents'' ''u'' ''s'')
        (Session ''agents'' ''u'' ''s'' [])
        (Event ''user'' (Some (Content ''user'' [Text ''hi''])))
     = (Inl (ValueError ''Session not found: agents:u:s''),
        delete_session (snd (create_session Map.empty ''agents'' ''u'' ''s'')) ''agents'' ''u'' ''s'',
        Session ''agents'' ''u'' ''s'' [])"
  using append_event_missing_record[where
      d = "delete_session (snd (create_session Map.empty ''agents'' ''u'' ''s'')) ''agents'' ''u'' ''s''"
      and s = "Session ''agents'' ''u'' ''s'' []" and str = object_str
      and e = "Event ''user'' (Some (Content ''user'' [Text ''hi'']))"]
  by (simp add: delete_session_def create_session_def make_session_key_def Let_def)

text \<open>
  C6 (as stated) says that after a successful append of \<open>e\<close> a read returns \<open>e\<close> last. It
  returns what the codec stores for \<open>e\<close>: for an event with an empty text part the append
  succeeds and the read returns one event, without that part.
\<close>

theorem append_then_get_empty_text_counterexample:
  "fst (append_event object_str (snd (create_session Map.empty ''agents'' ''u'' ''s''))
          (Session ''agents'' ''u'' ''s'' [])
          (Event ''user'' (Some (Content ''user'' [Text ''''])))) = Inr ()
   \<and> fst (get_session no_faults
            (fst (snd (append_event object_str (snd (create_session Map.empty ''agents'' ''u'' ''s''))
               (Session ''agents'' ''u'' ''s'' [])
               (Event ''user'' (Some (Content ''user'' [Text '''']))))))
            ''agents'' ''u'' ''s'')
       = Inr (Some (Session ''agents'' ''u'' ''s'' [Event ''user'' (Some (Content ''user'' []))]))
   \<and> Event ''user'' (Some (Content ''user'' [])) \<noteq> Event ''user'' (Some (Content ''user'' [Text '''']))"
  by (simp add: create_session_def append_event_def make_session_key_def Let_def
        json_loads_def json_dumps_def serialize_event_def deserialize_event_def
        load_events_def truthy_def get_session_no_fault no_faults_def get_session_inner_def)

text \<open>
  C6 (amended): on a key whose row is absent the append fails with ValueError, session
  not found. On an existing row, an event whose texts are not empty, whose call ids are
  absent or not empty and whose arguments and responses are JSON values is always
  appended successfully, and every successful append puts \<open>e\<close> itself at the end of the
  caller's handle. When the row's N stored events decode and the function responses of
  \<open>e\<close> are JSON-serializable, a read after a successful append returns exactly N+1
  events: the N it returned before, then the stored form of \<open>e\<close> (what the codec decodes
  from the JSON written for \<open>e\<close>), which is \<open>e\<close> itself for an event of the kind above.
\<close>

theorem append_then_get:
  "(d (make_session_key (app_name s) (user_id s) (session_id s)) = None \<longrightarrow>
      fst (append_event str d s e)
        = Inl (ValueError (''Session not found: ''
                 @ make_session_key (app_name s) (user_id s) (session_id s))))
   \<and> (d (make_session_key (app_name s) (user_id s) (session_id s)) = Some existing
        \<and> stored_exact e \<longrightarrow> fst (append_event str d s e) = Inr ())
   \<and> (d (make_session_key (app_name s) (user_id s) (session_id s)) = Some existing
        \<and> append_event str d s e = (Inr (), d', s') \<longrightarrow> events s' = events s @ [e])
   \<and> (d (make_session_key (app_name s) (user_id s) (session_id s)) = Some existing
        \<and> load_events existing = Inr old \<and> json_responses e
        \<and> append_event str d s e = (Inr (), d', s') \<longrightarrow>
        (\<exists>e'. stored_event str e = Inr e'
           \<and> fst (get_session no_faults d' (app_name s) (user_id s) (session_id s))
               = Inr (Some (Session (app_name s) (user_id s) (session_id s) (old @ [e'])))
           \<and> length (old @ [e']) = length (events_json existing) + 1
           \<and> (stored_exact e \<longrightarrow> e' = e)))"
proof (intro conjI impI)
  assume "d (make_session_key (app_name s) (user_id s) (session_id s)) = None"
  then show "fst (append_event str d s e)
        = Inl (ValueError (''Session not found: ''
                 @ make_session_key (app_name s) (user_id s) (session_id s)))"
    by (simp add: append_event_def)
next
  assume "d (make_session_key (app_name s) (user_id s) (session_id s)) = Some existing
        \<and> stored_exact e"
  then show "fst (append_event str d s e) = Inr ()"
    using stored_event_exact[of e str]
    by (auto simp: append_event_found stored_event_def split: option.splits)
next
  assume "d (make_session_key (app_name s) (user_id s) (session_id s)) = Some existing
        \<and> append_event str d s e = (Inr (), d', s')"
  then show "events s' = events s @ [e]"
    by (auto simp: append_event_found split: option.splits)
next
  assume a: "d (make_session_key (app_name s) (user_id s) (session_id s)) = Some existing
        \<and> load_events existing = Inr old \<and> json_responses e
        \<and> append_event str d s e = (Inr (), d', s')"
  then obtain j where j: "dumps_event (serialize_event str e) = Some j"
    and d': "d' = d(make_session_key (app_name s) (user_id s) (session_id s)
               \<mapsto> existing\<lparr>events_json := events_json existing @ [j]\<rparr>)"
    by (auto simp: append_event_found split: option.splits)
  from a j obtain e' where e': "stored_event str e = Inr e'"
    using stored_event_decodes[of e str j] by auto
  with j have dec: "deserialize_event (map_event_dict of_json j) = Inr e'"
    by (simp add: stored_event_def)
  have 2: "fst (get_session no_faults d' (app_name s) (user_id s) (session_id s))
               = Inr (Some (Session (app_name s) (user_id s) (session_id s) (old @ [e'])))"
    using d' a dec
    by (simp add: get_session_no_fault no_faults_def get_session_inner_def load_events_append)
  have 3: "length (old @ [e']) = length (events_json existing) + 1"
    using a deserialize_events_length[of "json_loads (events_json existing)" old]
    by (simp add: load_events_def json_loads_def)
  have 4: "stored_exact e \<longrightarrow> e' = e"
    using e' stored_event_exact[of e str] by auto
  from e' 2 3 4 show "\<exists>e'. stored_event str e = Inr e'
           \<and> fst (get_session no_faults d' (app_name s) (user_id s) (session_id s))
               = Inr (Some (Session (app_name s) (user_id s) (session_id s) (old @ [e'])))
           \<and> length (old @ [e']) = length (events_json existing) + 1
           \<and> (stored_exact e \<longrightarrow> e' = e)"
    by blast
qed

theorem append_then_get_witness:
  "snd (create_session Map.empty ''agents'' ''u'' ''s'') (make_session_key ''agents'' ''u'' ''s'')
     = Some \<lparr>rec_id = ''agents:u:s'', rec_app_name = ''agents'', rec_user_id = ''u'',
              rec_session_id = ''s'', events_json = []\<rparr>
   \<and> load_events \<lparr>rec_id = ''agents:u:s'', rec_app_name = ''agents'', rec_user_id = ''u'',
              rec_session_id = ''s'', events_json = []\<rparr> = Inr []
   \<and> stored_exact (Event ''user'' (Some (Content ''user'' [Text ''hi''])))
   \<and> json_responses (Event ''user'' (Some (Content ''user'' [Text ''hi''])))
   \<and> append_event object_str (snd (create_session Map.empty ''agents'' ''u'' ''s''))
          (Session ''agents'' ''u'' ''s'' [])
          (Event ''user'' (Some (Content ''user'' [Text ''hi''])))
       = (Inr (),
          [''agents:u:s'' \<mapsto> \<lparr>rec_id = ''agents:u:s'', rec_app_name = ''agents'',
              rec_user_id = ''u'', rec_session_id = ''s'',
              events_json = [EventDict ''user'' (Some (ContentDict ''user'' [PdText ''hi'']))]\<rparr>],
          Session ''agents'' ''u'' ''s'' [Event ''user'' (Some (Content ''user'' [Text ''hi'']))])
   \<and> fst (get_session no_faults
           [''agents:u:s'' \<mapsto> \<lparr>rec_id = ''agents:u:s'', rec_app_name = ''agents'',
              rec_user_id = ''u'', rec_session_id = ''s'',
              events_json = [EventDict ''user'' (Some (ContentDict ''user'' [PdText ''hi'']))]\<rparr>]
           ''agents'' ''u'' ''s'')
       = Inr (Some (Session ''agents'' ''u'' ''s''
                [Event ''user'' (Some (Content ''user'' [Text ''hi'']))]))"
  using append_then_get[where d = "snd (create_session Map.empty ''agents'' ''u'' ''s'')"
      and s = "Session ''agents'' ''u'' ''s'' []" and str = object_str
      and e = "Event ''user'' (Some (Content ''user'' [Text ''hi'']))"
      and existing = "\<lparr>rec_id = ''agents:u:s'', rec_app_name = ''agents'', rec_user_id = ''u'',
              rec_session_id = ''s'', events_json = []\<rparr>"
      and old = "[]"
      and d' = "[''agents:u:s'' \<mapsto> \<lparr>rec_id = ''agents:u:s'', rec_app_name = ''agents'',
              rec_user_id = ''u'', rec_session_id = ''s'',
              events_json = [EventDict ''user'' (Some (ContentDict ''user'' [PdText ''hi'']))]\<rparr>]"
      and s' = "Session ''agents'' ''u'' ''s'' [Event ''user'' (Some (Content ''user'' [Text ''hi'']))]"]
  by (simp add: create_session_def append_event_def make_session_key_def Let_def
        json_loads_def json_dumps_def serialize_event_def deserialize_event_def
        load_events_def truthy_def get_session_no_fault no_faults_def get_session_inner_def
        stored_exact_def json_responses_def)

text \<open>A read of a row that holds a stringified response raises as well.\<close>

lemma get_session_raises_on_stringified_response:
  "fst (get_session no_faults
          (fst (snd (append_event object_str
             (snd (create_session Map.empty ''agents'' ''u'' ''s''))
             (Session ''agents'' ''u'' ''s'' [])
             (Event ''user'' (Some (Content ''user''
                [FunctionResponsePart (FunctionResponse (Some ''c1'') ''query_memory''
                   (Some [(''result'',
                      PList [PObj None (Some [(''memory'', PStr ''likes tea'')]) None])]))]))))))
          ''agents'' ''u'' ''s'')
     = Inl ValidationError"
  by (simp add: create_session_def append_event_def make_session_key_def Let_def
        json_loads_def json_dumps_def serialize_event_def deserialize_event_def
        load_events_def normalize_response_def payload_val_def object_str_def
        get_session_no_fault no_faults_def get_session_inner_def)

subsection \<open>Retry on connection errors\<close>

lemma retry_from_unfold3:
  "retry_from func 3 delay 0 =
     (case func 0 of
        Returns v \<Rightarrow> (Inr (Some v), [Attempt 0])
      | Raises err0 \<Rightarrow>
          (case err0 of
             OperationalError m0 \<Rightarrow>
               (if is_connection_error m0 then
                  (case func 1 of
                     Returns v \<Rightarrow> (Inr (Some v), [Attempt 0, Sleep delay, DisposeEngine, Attempt 1])
                   | Raises err1 \<Rightarrow>
                       (case err1 of
                          OperationalError m1 \<Rightarrow>
                            (if is_connection_error m1 then
                               (case func 2 of
                                  Returns v \<Rightarrow>
                                    (Inr (Some v),
                                     [Attempt 0, Sleep delay, DisposeEngine,
                                      Attempt 1, Sleep delay, DisposeEngine, Attempt 2])
                                | Raises err2 \<Rightarrow>
                                    (Inl err2,
                                     [Attempt 0, Sleep delay, DisposeEngine,
                                      Attempt 1, Sleep delay, DisposeEngine, Attempt 2]))
                             else (Inl err1, [Attempt 0, Sleep delay, DisposeEngine, Attempt 1]))
                        | _ \<Rightarrow> (Inl err1, [Attempt 0, Sleep delay, DisposeEngine, Attempt 1])))
                else (Inl err0, [Attempt 0]))
           | _ \<Rightarrow> (Inl err0, [Attempt 0])))"
  by (simp add: numeral_2_eq_2 split: outcome.splits error.splits)

lemma retry_trace_simps:
  "retry_trace 0 = [Attempt 0]"
  "retry_trace (Suc 0) = [Attempt 0, Sleep 1, DisposeEngine, Attempt 1]"
  "retry_trace 2 = [Attempt 0, Sleep 1, DisposeEngine, Attempt 1, Sleep 1, DisposeEngine, Attempt 2]"
  by (simp_all add: retry_trace_def numeral_2_eq_2)

lemma retryable_cases:
  "retryable err \<Longrightarrow> \<exists>msg. err = OperationalError msg \<and> is_connection_error msg"
  by (cases err) (auto simp: retryable_def)

text \<open>
  C7: \<open>get_session\<close> makes at most three attempts. As long as an attempt raises a
  connection-level fault (an OperationalError whose text mentions a connection) and is
  not the third, it sleeps one second, disposes the engine and tries again. The first
  attempt that does not raise such a fault ends the read: with its result when it
  returns - so a connection-closed fault followed by a success returns the successful
  result - and with its error, raised at once with no sleep, disposal or further
  attempt, when it raises anything else; the error of a third attempt is raised
  whatever it is.
\<close>

theorem get_session_retry:
  assumes "n < 3" and "\<forall>i < n. \<exists>err. faults i = Some err \<and> retryable err"
  shows "(faults n = None \<longrightarrow>
            get_session faults d app user sid = (get_session_inner d app user sid, retry_trace n))
       \<and> (\<forall>err. faults n = Some err \<and> (\<not> retryable err \<or> n = 2) \<longrightarrow>
            get_session faults d app user sid = (Inl err, retry_trace n))"
proof -
  have inner: "get_session_inner d app user sid = Inl err \<Longrightarrow> err = ValidationError" for err
    by (rule get_session_inner_error)
  from assms(1) consider "n = 0" | "n = 1" | "n = 2" by linarith
  then show ?thesis
  proof cases
    case 1
    show ?thesis
      unfolding 1
      using inner
      by (cases "get_session_inner d app user sid")
         (auto simp: get_session_def retry_on_connection_error_def retry_from_unfold3
            retry_trace_simps retryable_def
            split: option.splits error.splits simp del: retry_from.simps)
  next
    case 2
    from assms(2) 2 have "\<exists>err. faults 0 = Some err \<and> retryable err" by simp
    then obtain m0 where f0: "faults 0 = Some (OperationalError m0)"
      "is_connection_error m0"
      using retryable_cases by blast
    show ?thesis
      unfolding 2
      using inner f0
      by (cases "get_session_inner d app user sid")
         (auto simp: get_session_def retry_on_connection_error_def retry_from_unfold3
            retry_trace_simps retryable_def
            split: option.splits error.splits simp del: retry_from.simps)
  next
    case 3
    from assms(2) 3 have "\<exists>err. faults 0 = Some err \<and> retryable err" by simp
    then obtain m0 where f0: "faults 0 = Some (OperationalError m0)"
      "is_connection_error m0"
      using retryable_cases by blast
    from assms(2) 3 have "\<exists>err. faults 1 = Some err \<and> retryable err" by simp
    then obtain m1 where f1: "faults 1 = Some (OperationalError m1)"
      "is_connection_error m1"
      using retryable_cases by blast
    show ?thesis
      unfolding 3
      using inner f0 f1
      by (cases "get_session_inner d app user sid")
         (auto simp: get_session_def retry_on_connection_error_def retry_from_unfold3
            retry_trace_simps retryable_def
            split: option.splits error.splits simp del: retry_from.simps)
  qed
qed

theorem get_session_retry_witness:
  "retryable (OperationalError ''SSL connection has been closed unexpectedly'')
   \<and> get_session (\<lambda>n. if n = 0 then Some (OperationalError ''SSL connection has been closed unexpectedly'') else None)
        (snd (create_session Map.empty ''agents'' ''u'' ''s'')) ''agents'' ''u'' ''s''
      = (Inr (Some (Session ''agents'' ''u'' ''s'' [])), [Attempt 0, Sleep 1, DisposeEngine, Attempt 1])
   \<and> \<not> retryable (OperationalError ''syntax error'')
   \<and> get_session (\<lambda>n. Some (OperationalError ''syntax error''))
        (snd (create_session Map.empty ''agents'' ''u'' ''s'')) ''agents'' ''u'' ''s''
      = (Inl (OperationalError ''syntax error''), [Attempt 0])
   \<and> get_session (\<lambda>n. if n = 0 then Some (OperationalError ''SSL connection has been closed unexpectedly'') else Some (ValueError ''boom''))
        (snd (create_session Map.empty ''agents'' ''u'' ''s'')) ''agents'' ''u'' ''s''
      = (Inl (ValueError ''boom''), [Attempt 0, Sleep 1, DisposeEngine, Attempt 1])
   \<and> get_session (\<lambda>n. if n < 2 then Some (OperationalError ''SSL connection has been closed unexpectedly'') else None)
        (snd (create_session Map.empty ''agents'' ''u'' ''s'')) ''agents'' ''u'' ''s''
      = (Inr (Some (Session ''agents'' ''u'' ''s'' [])),
         [Attempt 0, Sleep 1, DisposeEngine, Attempt 1, Sleep 1, DisposeEngine, Attempt 2])
   \<and> get_session (\<lambda>n. Some (OperationalError ''SSL connection has been closed unexpectedly''))
        (snd (create_session Map.empty ''agents'' ''u'' ''s'')) ''agents'' ''u'' ''s''
      = (Inl (OperationalError ''SSL connection has been closed unexpectedly''),
         [Attempt 0, Sleep 1, DisposeEngine, Attempt 1, Sleep 1, DisposeEngine, Attempt 2])"
  using get_session_retry[where n = 1
      and faults = "\<lambda>n. if n = 0 then Some (OperationalError ''SSL connection has been closed unexpectedly'') else None"
      and d = "snd (create_session Map.empty ''agents'' ''u'' ''s'')"
      and app = "''agents''" and user = "''u''" and sid = "''s''"]
    get_session_retry[where n = 0
      and faults = "\<lambda>n. Some (OperationalError ''syntax error'')"
      and d = "snd (create_session Map.empty ''agents'' ''u'' ''s'')"
      and app = "''agents''" and user = "''u''" and sid = "''s''"]
    get_session_retry[where n = 1
      and faults = "\<lambda>n. if n = 0 then Some (OperationalError ''SSL connection has been closed unexpectedly'') else Some (ValueError ''boom'')"
      and d = "snd (create_session Map.empty ''agents'' ''u'' ''s'')"
      and app = "''agents''" and user = "''u''" and sid = "''s''"]
    get_session_retry[where n = 2
      and faults = "\<lambda>n. if n < 2 then Some (OperationalError ''SSL connection has been closed unexpectedly'') else None"
      and d = "snd (create_session Map.empty ''agents'' ''u'' ''s'')"
      and app = "''agents''" and user = "''u''" and sid = "''s''"]
    get_session_retry[where n = 2
      and faults = "\<lambda>n. Some (OperationalError ''SSL connection has been closed unexpectedly'')"
      and d = "snd (create_session Map.empty ''agents'' ''u'' ''s'')"
      and app = "''agents''" and user = "''u''" and sid = "''s''"]
  by (simp add: retryable_def is_connection_error_def lower_def lower_char_def
        get_session_inner_def create_session_def make_session_key_def load_events_def
        json_loads_def Let_def retry_trace_simps)

subsection \<open>Hydration from the secondary store\<close>

lemma get_session_None_absent:
  assumes "fst (get_session faults d app user sid) = Inr None"
  shows "d (make_session_key app user sid) = None"
proof -
  from assms have "get_session_inner d app user sid = Inr None"
    by (cases "get_session_inner d app user sid")
       (auto simp: get_session_def retry_on_connection_error_def retry_from_unfold3
          split: option.splits error.splits if_splits simp del: retry_from.simps)
  then show ?thesis by (simp add: get_session_inner_def split: option.splits sum.splits)
qed

lemma dumps_message_event:
  "truthy (msg_content m) \<Longrightarrow>
   dumps_event (serialize_event str (message_event m))
     = Some (EventDict (msg_role m) (Some (ContentDict (msg_role m) [PdText (msg_content m)])))"
  by (simp add: message_event_def serialize_event_def)

lemma hydrate_found:
  assumes "d (make_session_key (app_name s) (user_id s) (session_id s)) = Some existing"
  shows "hydrate str d s ms =
     (Inr (),
      d(make_session_key (app_name s) (user_id s) (session_id s) \<mapsto>
          existing\<lparr>events_json := events_json existing
             @ map (\<lambda>m. EventDict (msg_role m) (Some (ContentDict (msg_role m) [PdText (msg_content m)])))
                 (filter (\<lambda>m. truthy (msg_content m)) ms)\<rparr>),
      Session (app_name s) (user_id s) (session_id s)
        (events s @ map message_event (filter (\<lambda>m. truthy (msg_content m)) ms)))"
  using assms
proof (induction ms arbitrary: d s existing)
  case Nil
  then show ?case by (cases s) (auto simp: fun_upd_idem)
next
  case (Cons m ms)
  show ?case
  proof (cases "truthy (msg_content m)")
    case False
    with Cons show ?thesis by simp
  next
    case True
    let ?k = "make_session_key (app_name s) (user_id s) (session_id s)"
    let ?j = "EventDict (msg_role m) (Some (ContentDict (msg_role m) [PdText (msg_content m)]))"
    let ?d1 = "d(?k \<mapsto> existing\<lparr>events_json := events_json existing @ [?j]\<rparr>)"
    let ?s1 = "Session (app_name s) (user_id s) (session_id s) (events s @ [message_event m])"
    have ap: "append_event str d s (message_event m) = (Inr (), ?d1, ?s1)"
      using Cons.prems True by (simp add: append_event_found dumps_message_event)
    have key: "?d1 (make_session_key (app_name ?s1) (user_id ?s1) (session_id ?s1))
            = Some (existing\<lparr>events_json := events_json existing @ [?j]\<rparr>)"
      by simp
    have step: "hydrate str d s (m # ms) = hydrate str ?d1 ?s1 ms"
      using True ap by simp
    show ?thesis
      unfolding step
      unfolding Cons.IH[of ?d1 ?s1 "existing\<lparr>events_json := events_json existing @ [?j]\<rparr>", OF key]
      using True by (auto simp: fun_eq_iff)
  qed
qed

lemma load_events_message_dicts:
  "deserialize_events (json_loads
      (map (\<lambda>m. EventDict (msg_role m) (Some (ContentDict (msg_role m) [PdText (msg_content m)]))) ms))
    = Inr (map message_event ms)"
  by (induction ms) (simp_all add: json_loads_def deserialize_event_def message_event_def)

text \<open>
  C8: when the read at the start of a turn reports the session absent and the secondary
  store holds a non-empty message list for the session id, the set-up creates the session
  and appends, in stored order, one text-only event per message whose content is not
  empty, skipping the others: the handle it returns and a following read of the durable
  store both hold exactly these events; for the history \<open>user: hi\<close>,
  \<open>assistant: hello\<close> these are two text events in that order.
\<close>

theorem hydration_replays_messages:
  assumes "fst (get_session faults d ''agents'' user sid) = Inr None"
      and "get_session_messages store sid = Some doc"
      and "messages doc \<noteq> []"
  shows "\<exists>d'. setup_session str faults d store user sid
            = (Inr (Session ''agents'' user sid
                      (map message_event (filter (\<lambda>m. truthy (msg_content m)) (messages doc)))),
               d')
          \<and> get_session_inner d' ''agents'' user sid
              = Inr (Some (Session ''agents'' user sid
                        (map message_event (filter (\<lambda>m. truthy (msg_content m)) (messages doc)))))"
proof -
  let ?k = "make_session_key ''agents'' user sid"
  let ?row = "\<lparr>rec_id = ?k, rec_app_name = ''agents'', rec_user_id = user,
                rec_session_id = sid, events_json = []\<rparr>"
  from assms(1) have absent: "d ?k = None" by (rule get_session_None_absent)
  then have cr: "create_session d ''agents'' user sid = (Inr (Session ''agents'' user sid []), d(?k \<mapsto> ?row))"
    by (simp add: create_session_def Let_def)
  have hy: "hydrate str (d(?k \<mapsto> ?row)) (Session ''agents'' user sid []) (messages doc) =
     (Inr (),
      (d(?k \<mapsto> ?row))(?k \<mapsto>
          ?row\<lparr>events_json := events_json ?row
             @ map (\<lambda>m. EventDict (msg_role m) (Some (ContentDict (msg_role m) [PdText (msg_content m)])))
                 (filter (\<lambda>m. truthy (msg_content m)) (messages doc))\<rparr>),
      Session ''agents'' user sid
        ([] @ map message_event (filter (\<lambda>m. truthy (msg_content m)) (messages doc))))"
    using hydrate_found[of "d(?k \<mapsto> ?row)" "Session ''agents'' user sid []" ?row str "messages doc"]
    by simp
  show ?thesis
    using assms cr hy
    by (simp add: setup_session_def get_session_inner_def load_events_def
          load_events_message_dicts)
qed

theorem hydration_replays_messages_witness:
  "fst (get_session no_faults Map.empty ''agents'' ''u'' ''s1'') = Inr None
   \<and> fst (setup_session object_str no_faults Map.empty
        [''s1'' \<mapsto> \<lparr>title = ''t'', messages =
           [\<lparr>msg_role = ''user'', msg_content = ''hi''\<rparr>,
            \<lparr>msg_role = ''assistant'', msg_content = ''hello''\<rparr>]\<rparr>] ''u'' ''s1'')
     = Inr (Session ''agents'' ''u'' ''s1''
         [Event ''user'' (Some (Content ''user'' [Text ''hi''])),
          Event ''assistant'' (Some (Content ''assistant'' [Text ''hello'']))])
   \<and> get_session_inner (snd (setup_session object_str no_faults Map.empty
        [''s1'' \<mapsto> \<lparr>title = ''t'', messages =
           [\<lparr>msg_role = ''user'', msg_content = ''hi''\<rparr>,
            \<lparr>msg_role = ''assistant'', msg_content = ''hello''\<rparr>]\<rparr>] ''u'' ''s1'')) ''agents'' ''u'' ''s1''
     = Inr (Some (Session ''agents'' ''u'' ''s1''
         [Event ''user'' (Some (Content ''user'' [Text ''hi''])),
          Event ''assistant'' (Some (Content ''assistant'' [Text ''hello'']))]))"
  using hydration_replays_messages[where faults = no_faults and d = Map.empty and user = "''u''"
      and sid = "''s1''" and str = object_str
      and store = "[''s1'' \<mapsto> \<lparr>title = ''t'', messages =
           [\<lparr>msg_role = ''user'', msg_content = ''hi''\<rparr>,
            \<lparr>msg_role = ''assistant'', msg_content = ''hello''\<rparr>]\<rparr>]"
      and doc = "\<lparr>title = ''t'', messages =
           [\<lparr>msg_role = ''user'', msg_content = ''hi''\<rparr>,
            \<lparr>msg_role = ''assistant'', msg_content = ''hello''\<rparr>]\<rparr>"]
  by (auto simp: get_session_no_fault no_faults_def get_session_inner_def
        get_session_messages_def message_event_def truthy_def)

subsection \<open>Stream frames\<close>

lemma event_frames_texts: "\<exists>ts. event_frames e = map ContentFrame ts"
proof (cases "content e")
  case None
  then show ?thesis by (simp add: event_frames_def)
next
  case (Some c)
  have "\<exists>ts. concat (map (\<lambda>p. case p of Text t \<Rightarrow> (if truthy t then [ContentFrame t] else [])
                                    | _ \<Rightarrow> []) ps) = map ContentFrame ts" for ps
  proof (induction ps)
    case Nil
    then show ?case by simp
  next
    case (Cons p ps)
    then obtain ts where ts: "concat (map (\<lambda>p. case p of Text t \<Rightarrow> (if truthy t then [ContentFrame t] else [])
                                    | _ \<Rightarrow> []) ps) = map ContentFrame ts" by blast
    show ?case
    proof (cases p)
      case (Text t)
      show ?thesis
      proof (cases "truthy t")
        case True
        with Text ts have "concat (map (\<lambda>p. case p of Text t \<Rightarrow> (if truthy t then [ContentFrame t] else [])
                                    | _ \<Rightarrow> []) (p # ps)) = map ContentFrame (t # ts)" by simp
        then show ?thesis by blast
      next
        case False
        with Text ts show ?thesis by auto
      qed
    next
      case (FunctionCallPart fc)
      with ts show ?thesis by auto
    next
      case (FunctionResponsePart fr)
      with ts show ?thesis by auto
    qed
  qed
  with Some show ?thesis by (simp add: event_frames_def)
qed

lemma run_frames_texts: "\<exists>ts. concat (map event_frames es) = map ContentFrame ts"
proof (induction es)
  case Nil
  then show ?case by simp
next
  case (Cons e es)
  then obtain ts where "concat (map event_frames es) = map ContentFrame ts" by blast
  moreover obtain us where "event_frames e = map ContentFrame us"
    using event_frames_texts by blast
  ultimately have "concat (map event_frames (e # es)) = map ContentFrame (us @ ts)" by simp
  then show ?case by blast
qed

text \<open>The set-up failure path returns before the sentinel: the stream is the error frame
  and the session id frame.\<close>

lemma stream_setup_failure:
  assumes "fst (setup_session str faults d store user sid) = Inl err"
  shows "fst (stream_with_persistence str faults d store agent_run user sid)
    = [ContentFrame ''Error: Failed to initialize chat session.'', SessionIdFrame sid]"
  using assms
  by (cases "setup_session str faults d store user sid")
     (simp add: stream_with_persistence_def stream_generator_def Let_def)

text \<open>
  C9 (amended): every caller-visible stream of a turn whose session set-up succeeded, on
  success and on agent-loop failure, consists of zero or more content frames (an
  agent-loop failure contributing a readable error frame as the last of them), followed
  by the terminal sentinel frame and then the session id frame, which is the last frame.
\<close>

theorem stream_frames:
  assumes "fst (setup_session str faults d store user sid) = Inr s"
  shows "\<exists>texts. fst (stream_with_persistence str faults d store agent_run user sid)
            = map ContentFrame texts @ [DoneFrame, SessionIdFrame sid]
          \<and> (case run_error agent_run of
                Some run_err \<Rightarrow> texts \<noteq> [] \<and> last texts = ''Error: '' @ run_err
              | None \<Rightarrow> True)"
proof -
  obtain ts where ts: "concat (map event_frames (run_events agent_run)) = map ContentFrame ts"
    using run_frames_texts by blast
  obtain d' where su: "setup_session str faults d store user sid = (Inr s, d')"
    using assms by (cases "setup_session str faults d store user sid") simp
  show ?thesis
  proof (cases "run_error agent_run")
    case None
    with ts su have "fst (stream_with_persistence str faults d store agent_run user sid)
            = map ContentFrame ts @ [DoneFrame, SessionIdFrame sid]"
      by (simp add: stream_with_persistence_def stream_generator_def Let_def)
    with None show ?thesis by auto
  next
    case (Some run_err)
    with ts su have "fst (stream_with_persistence str faults d store agent_run user sid)
            = map ContentFrame (ts @ [''Error: '' @ run_err]) @ [DoneFrame, SessionIdFrame sid]"
      by (simp add: stream_with_persistence_def stream_generator_def Let_def)
    with Some show ?thesis by (intro exI[of _ "ts @ [''Error: '' @ run_err]"]) simp
  qed
qed

theorem stream_frames_witness:
  "fst (setup_session object_str no_faults Map.empty Map.empty ''u'' ''s1'')
     = Inr (Session ''agents'' ''u'' ''s1'' [])
   \<and> fst (stream_with_persistence object_str no_faults Map.empty Map.empty
          (Run [Event ''model'' (Some (Content ''model'' [Text ''hi'']))] (Some ''boom'')) ''u'' ''s1'')
     = [ContentFrame ''hi'', ContentFrame ''Error: boom'', DoneFrame, SessionIdFrame ''s1'']"
  using stream_frames[where str = object_str and faults = no_faults and d = Map.empty
      and store = Map.empty and user = "''u''" and sid = "''s1''"
      and s = "Session ''agents'' ''u'' ''s1'' []"
      and agent_run = "Run [Event ''model'' (Some (Content ''model'' [Text ''hi'']))] (Some ''boom'')"]
  by (simp add: stream_with_persistence_def stream_generator_def setup_session_def
        get_session_no_fault no_faults_def get_session_inner_def create_session_def Let_def
        get_session_messages_def event_frames_def truthy_def)

text \<open>
  C9 (as stated) puts the session id frame before the sentinel and nothing after the
  sentinel. \<open>stream_generator\<close> ends with the sentinel and \<open>stream_with_persistence\<close>
  sends the session id after it: a successful one-chunk turn streams content, sentinel,
  session id.
\<close>

theorem stream_order_counterexample:
  "fst (stream_with_persistence object_str no_faults Map.empty Map.empty
          (Run [Event ''model'' (Some (Content ''model'' [Text ''hi'']))] None) ''u'' ''s1'')
     = [ContentFrame ''hi'', DoneFrame, SessionIdFrame ''s1'']
   \<and> \<not> claimed_stream ''s1''
        (fst (stream_with_persistence object_str no_faults Map.empty Map.empty
          (Run [Event ''model'' (Some (Content ''model'' [Text ''hi'']))] None) ''u'' ''s1''))"
  by (simp add: stream_with_persistence_def stream_generator_def setup_session_def
        get_session_no_fault no_faults_def get_session_inner_def create_session_def Let_def
        get_session_messages_def event_frames_def truthy_def claimed_stream_def)

subsection \<open>Message Reconciler\<close>

lemma clean_message_fields:
  "x \<in> set (clean_message ids m) \<Longrightarrow> m_role x = m_role m \<and> m_tool_call_id x = m_tool_call_id m"
  by (auto simp: clean_message_def Let_def split: if_splits)

lemma clean_message_tool: "m_role m = ''tool'' \<Longrightarrow> clean_message ids m = [m]"
  by (simp add: clean_message_def)

lemma clean_message_tool_calls:
  "x \<in> set (clean_message ids m) \<Longrightarrow> m_role x = ''assistant'' \<Longrightarrow> m_tool_calls x = Some tcs
     \<Longrightarrow> tc_id ` set tcs \<subseteq> ids"
  by (auto simp: clean_message_def Let_def split: if_splits)

lemma tool_response_ids_append:
  "tool_response_ids (xs @ ys) = tool_response_ids xs \<union> tool_response_ids ys"
  by (induction xs) (auto split: option.splits)

lemma tool_response_ids_no_tool:
  "(\<And>x. x \<in> set xs \<Longrightarrow> m_role x \<noteq> ''tool'') \<Longrightarrow> tool_response_ids xs = {}"
  by (induction xs) auto

lemma tool_response_ids_clean:
  "tool_response_ids (concat (map (clean_message ids) ms)) = tool_response_ids ms"
proof (induction ms)
  case Nil
  then show ?case by simp
next
  case (Cons m ms)
  show ?case
  proof (cases "m_role m = ''tool''")
    case True
    then show ?thesis using Cons
      by (auto simp: clean_message_tool split: option.splits)
  next
    case False
    then have "tool_response_ids (clean_message ids m) = {}"
      by (intro tool_response_ids_no_tool) (auto dest: clean_message_fields)
    with False Cons show ?thesis by (simp add: tool_response_ids_append)
  qed
qed

lemma tool_response_ids_mem:
  "i \<in> tool_response_ids ms \<Longrightarrow> \<exists>t \<in> set ms. m_role t = ''tool'' \<and> m_tool_call_id t = Some i"
  by (induction ms) (auto split: if_splits option.splits)

lemma cleaned_messages_covered:
  assumes "m \<in> set (cleaned_messages msgs)" "m_role m = ''assistant''" "m_tool_calls m = Some tcs"
  shows "tc_id ` set tcs \<subseteq> tool_response_ids (cleaned_messages msgs)"
proof -
  from assms(1) obtain m0 where "m \<in> set (clean_message (tool_response_ids msgs) m0)"
    by (auto simp: cleaned_messages_def)
  with assms(2,3) have "tc_id ` set tcs \<subseteq> tool_response_ids msgs"
    using clean_message_tool_calls[of m "tool_response_ids msgs" m0 tcs] by simp
  then show ?thesis by (simp add: cleaned_messages_def tool_response_ids_clean)
qed

lemma clean_message_unmatched:
  assumes "m_role m = ''assistant''" "m_tool_calls m = Some tcs" "\<forall>tc \<in> set tcs. tc_id tc \<notin> ids"
  shows "clean_message ids m =
     (if truthy_opt (m_content m) then [Msg ''assistant'' (m_content m) None (m_tool_call_id m)] else [])"
proof -
  from assms(3) have "filter (\<lambda>tc. tc_id tc \<in> ids) tcs = []"
    by (induction tcs) auto
  with assms(1,2) show ?thesis by (simp add: clean_message_def)
qed

text \<open>
  C1: for every input for which the message list is built, after the repair pass the
  list contains no assistant message whose \<open>tool_calls\<close> name an id that is not the
  \<open>tool_call_id\<close> of some tool message of the list; and an assistant message all of whose
  tool calls are unmatched is replaced, in place, by the same message without the
  \<open>tool_calls\<close> field when its content is not empty, and by nothing when it has no text.
\<close>

theorem repair_pass:
  assumes "convert_contents dumps str (system_messages sys) contents = Inr msgs"
  shows "backend_messages dumps str sys contents = Inr (cleaned_messages msgs)
    \<and> (\<forall>m \<in> set (cleaned_messages msgs). \<forall>tcs.
          m_role m = ''assistant'' \<and> m_tool_calls m = Some tcs \<longrightarrow>
          (\<forall>tc \<in> set tcs. \<exists>t \<in> set (cleaned_messages msgs).
              m_role t = ''tool'' \<and> m_tool_call_id t = Some (tc_id tc)))
    \<and> (\<forall>pre m post tcs.
          msgs = pre @ m # post \<and> m_role m = ''assistant'' \<and> m_tool_calls m = Some tcs
          \<and> (\<forall>tc \<in> set tcs. tc_id tc \<notin> tool_response_ids msgs) \<longrightarrow>
          cleaned_messages msgs =
            concat (map (clean_message (tool_response_ids msgs)) pre)
            @ (if truthy_opt (m_content m)
               then [Msg ''assistant'' (m_content m) None (m_tool_call_id m)] else [])
            @ concat (map (clean_message (tool_response_ids msgs)) post))"
proof (intro conjI ballI allI impI)
  show "backend_messages dumps str sys contents = Inr (cleaned_messages msgs)"
    using assms by (simp add: backend_messages_def)
next
  fix m tcs tc
  assume m: "m \<in> set (cleaned_messages msgs)"
    and a: "m_role m = ''assistant'' \<and> m_tool_calls m = Some tcs"
    and tc: "tc \<in> set tcs"
  from m a have "tc_id ` set tcs \<subseteq> tool_response_ids (cleaned_messages msgs)"
    using cleaned_messages_covered by blast
  with tc have "tc_id tc \<in> tool_response_ids (cleaned_messages msgs)" by auto
  then show "\<exists>t \<in> set (cleaned_messages msgs). m_role t = ''tool'' \<and> m_tool_call_id t = Some (tc_id tc)"
    by (rule tool_response_ids_mem)
next
  fix pre m post tcs
  assume a: "msgs = pre @ m # post \<and> m_role m = ''assistant'' \<and> m_tool_calls m = Some tcs
          \<and> (\<forall>tc \<in> set tcs. tc_id tc \<notin> tool_response_ids msgs)"
  then have "clean_message (tool_response_ids msgs) m =
     (if truthy_opt (m_content m) then [Msg ''assistant'' (m_content m) None (m_tool_call_id m)] else [])"
    using clean_message_unmatched[of m tcs "tool_response_ids msgs"] by blast
  moreover from a have "cleaned_messages msgs =
      concat (map (clean_message (tool_response_ids msgs)) pre)
      @ clean_message (tool_response_ids msgs) m
      @ concat (map (clean_message (tool_response_ids msgs)) post)"
    by (simp add: cleaned_messages_def)
  ultimately show "cleaned_messages msgs =
            concat (map (clean_message (tool_response_ids msgs)) pre)
            @ (if truthy_opt (m_content m)
               then [Msg ''assistant'' (m_content m) None (m_tool_call_id m)] else [])
            @ concat (map (clean_message (tool_response_ids msgs)) post)"
    by simp
qed

theorem repair_pass_witness:
  "convert_contents example_dumps object_str (system_messages None)
     [Content ''user'' [Text ''hi''],
      Content ''model'' [FunctionCallPart (FunctionCall (Some ''c1'') ''f'' (Some []))],
      Content ''model'' [Text ''calling'', FunctionCallPart (FunctionCall (Some ''c2'') ''g'' (Some []))],
      Content ''model'' [FunctionCallPart (FunctionCall (Some ''c3'') ''h'' (Some []))],
      Content ''user'' [FunctionResponsePart (FunctionResponse (Some ''c3'') ''h'' (Some [(''result'', PStr ''done'')]))]]
    = Inr [Msg ''user'' (Some ''hi'') None None,
           Msg ''assistant'' None (Some [ToolCall ''c1'' ''function'' ''f'' (PStr ''<json>'')]) None,
           Msg ''assistant'' (Some ''calling'') (Some [ToolCall ''c2'' ''function'' ''g'' (PStr ''<json>'')]) None,
           Msg ''assistant'' None (Some [ToolCall ''c3'' ''function'' ''h'' (PStr ''<json>'')]) None,
           Msg ''tool'' (Some ''<json>'') None (Some ''c3'')]
   \<and> backend_messages example_dumps object_str None
     [Content ''user'' [Text ''hi''],
      Content ''model'' [FunctionCallPart (FunctionCall (Some ''c1'') ''f'' (Some []))],
      Content ''model'' [Text ''calling'', FunctionCallPart (FunctionCall (Some ''c2'') ''g'' (Some []))],
      Content ''model'' [FunctionCallPart (FunctionCall (Some ''c3'') ''h'' (Some []))],
      Content ''user'' [FunctionResponsePart (FunctionResponse (Some ''c3'') ''h'' (Some [(''result'', PStr ''done'')]))]]
    = Inr [Msg ''user'' (Some ''hi'') None None,
           Msg ''assistant'' (Some ''calling'') None None,
           Msg ''assistant'' None (Some [ToolCall ''c3'' ''function'' ''h'' (PStr ''<json>'')]) None,
           Msg ''tool'' (Some ''<json>'') None (Some ''c3'')]"
  using repair_pass[where dumps = example_dumps and str = object_str and sys = None
      and contents = "[Content ''user'' [Text ''hi''],
      Content ''model'' [FunctionCallPart (FunctionCall (Some ''c1'') ''f'' (Some []))],
      Content ''model'' [Text ''calling'', FunctionCallPart (FunctionCall (Some ''c2'') ''g'' (Some []))],
      Content ''model'' [FunctionCallPart (FunctionCall (Some ''c3'') ''h'' (Some []))],
      Content ''user'' [FunctionResponsePart (FunctionResponse (Some ''c3'') ''h'' (Some [(''result'', PStr ''done'')]))]]"
      and msgs = "[Msg ''user'' (Some ''hi'') None None,
           Msg ''assistant'' None (Some [ToolCall ''c1'' ''function'' ''f'' (PStr ''<json>'')]) None,
           Msg ''assistant'' (Some ''calling'') (Some [ToolCall ''c2'' ''function'' ''g'' (PStr ''<json>'')]) None,
           Msg ''assistant'' None (Some [ToolCall ''c3'' ''function'' ''h'' (PStr ''<json>'')]) None,
           Msg ''tool'' (Some ''<json>'') None (Some ''c3'')]"]
  by (simp add: backend_messages_def system_messages_def truthy_opt_def truthy_def
        convert_content_def call_arguments_def or_call_unknown_def tool_content_def payload_val_def
        example_dumps_def cleaned_messages_def clean_message_def Let_def)










end
